theory Spec2Isabelle
  imports Main "HOL-Library.Word"
begin

unbundle bit_operations_syntax

section \<open>The virtio RDMA provider: data model\<close>

text \<open>
  A shallow embedding of \<^verbatim>\<open>providers/virtio/virtio_rdma.c\<close>: the translation
  tables, completion-queue creation and polling, and the send and receive posting paths.
  C integers of a fixed width are words; \<^verbatim>\<open>int\<close>-typed enumerators are integers that
  are narrowed with \<open>word_of_int\<close> where the C code narrows them to \<^verbatim>\<open>uint8_t\<close>.
\<close>

type_synonym u8 = "8 word"
type_synonym u32 = "32 word"
type_synonym u64 = "64 word"

subsection \<open>Header constants\<close>

text \<open>
  The enumerators the source names. The wire enumerators \<^verbatim>\<open>VIRTIO_IB_*\<close> come from
  \<^verbatim>\<open>virtio_rdma_abi.h\<close> and the generic ones \<^verbatim>\<open>IBV_*\<close> from \<^verbatim>\<open>infiniband/verbs.h\<close>;
  neither header is part of the source file, so their values are parameters of the model.
  One constructor stands for the common suffix of a pair, e.g. \<open>WC_SUCCESS\<close> for
  \<^verbatim>\<open>VIRTIO_IB_WC_SUCCESS\<close> and \<^verbatim>\<open>IBV_WC_SUCCESS\<close>.
\<close>

datatype enumerator =
    WC_SUCCESS | WC_LOC_LEN_ERR | WC_LOC_QP_OP_ERR | WC_LOC_PROT_ERR
  | WC_WR_FLUSH_ERR | WC_BAD_RESP_ERR | WC_LOC_ACCESS_ERR | WC_REM_INV_REQ_ERR
  | WC_REM_ACCESS_ERR | WC_REM_OP_ERR | WC_RETRY_EXC_ERR | WC_RNR_RETRY_EXC_ERR
  | WC_REM_ABORT_ERR | WC_FATAL_ERR | WC_RESP_TIMEOUT_ERR | WC_GENERAL_ERR
  | WC_SEND | WC_RDMA_WRITE | WC_RDMA_READ | WC_RECV | WC_RECV_RDMA_WITH_IMM
  | WR_RDMA_WRITE | WR_RDMA_WRITE_WITH_IMM | WR_SEND | WR_SEND_WITH_IMM | WR_RDMA_READ
  | SEND_FENCE | SEND_SIGNALED | SEND_SOLICITED | SEND_INLINE
  | WC_GRH | WC_WITH_IMM
  | QPT_RC | QPT_UD

text \<open>
  The parameters taken from the missing headers: the value of every enumerator on the
  wire side (\<open>VIRTIO_IB\<close>) and on the generic side (\<open>IBV\<close>), and the sizes of the wire
  structures (\<^verbatim>\<open>sizeof(struct virtio_rdma_sq_req)\<close> and so on).
\<close>

record abi =
  VIRTIO_IB :: "enumerator \<Rightarrow> int"
  IBV :: "enumerator \<Rightarrow> int"
  sizeof_sq_req :: nat
  sizeof_rq_req :: nat
  sizeof_cq_req :: nat
  sizeof_sge :: nat

definition wc_status_members :: "enumerator list" where
  "wc_status_members =
     [WC_SUCCESS, WC_LOC_LEN_ERR, WC_LOC_QP_OP_ERR, WC_LOC_PROT_ERR,
      WC_WR_FLUSH_ERR, WC_BAD_RESP_ERR, WC_LOC_ACCESS_ERR, WC_REM_INV_REQ_ERR,
      WC_REM_ACCESS_ERR, WC_REM_OP_ERR, WC_RETRY_EXC_ERR, WC_RNR_RETRY_EXC_ERR,
      WC_REM_ABORT_ERR, WC_FATAL_ERR, WC_RESP_TIMEOUT_ERR, WC_GENERAL_ERR]"

definition wc_opcode_members :: "enumerator list" where
  "wc_opcode_members = [WC_SEND, WC_RDMA_WRITE, WC_RDMA_READ, WC_RECV, WC_RECV_RDMA_WITH_IMM]"

definition wr_opcode_members :: "enumerator list" where
  "wr_opcode_members =
     [WR_RDMA_WRITE, WR_RDMA_WRITE_WITH_IMM, WR_SEND, WR_SEND_WITH_IMM, WR_RDMA_READ]"

definition send_flag_members :: "enumerator list" where
  "send_flag_members = [SEND_FENCE, SEND_SIGNALED, SEND_SOLICITED, SEND_INLINE]"

definition wc_flag_members :: "enumerator list" where
  "wc_flag_members = [WC_GRH, WC_WITH_IMM]"

subsection \<open>Translation tables\<close>

text \<open>
  Each function is a \<^verbatim>\<open>switch\<close> over a \<^verbatim>\<open>uint8_t\<close> argument whose cases return the
  corresponding enumerator, narrowed to the \<^verbatim>\<open>uint8_t\<close> return type; control that
  leaves the switch reaches \<^verbatim>\<open>return -1\<close>.
\<close>

definition to_ib_status :: "abi \<Rightarrow> u8 \<Rightarrow> u8" where
  "to_ib_status h status =
     (if uint status = VIRTIO_IB h WC_SUCCESS then word_of_int (IBV h WC_SUCCESS)
      else if uint status = VIRTIO_IB h WC_LOC_LEN_ERR then word_of_int (IBV h WC_LOC_LEN_ERR)
      else if uint status = VIRTIO_IB h WC_LOC_QP_OP_ERR then word_of_int (IBV h WC_LOC_QP_OP_ERR)
      else if uint status = VIRTIO_IB h WC_LOC_PROT_ERR then word_of_int (IBV h WC_LOC_PROT_ERR)
      else if uint status = VIRTIO_IB h WC_WR_FLUSH_ERR then word_of_int (IBV h WC_WR_FLUSH_ERR)
      else if uint status = VIRTIO_IB h WC_BAD_RESP_ERR then word_of_int (IBV h WC_BAD_RESP_ERR)
      else if uint status = VIRTIO_IB h WC_LOC_ACCESS_ERR then word_of_int (IBV h WC_LOC_ACCESS_ERR)
      else if uint status = VIRTIO_IB h WC_REM_INV_REQ_ERR then word_of_int (IBV h WC_REM_INV_REQ_ERR)
      else if uint status = VIRTIO_IB h WC_REM_ACCESS_ERR then word_of_int (IBV h WC_REM_ACCESS_ERR)
      else if uint status = VIRTIO_IB h WC_REM_OP_ERR then word_of_int (IBV h WC_REM_OP_ERR)
      else if uint status = VIRTIO_IB h WC_RETRY_EXC_ERR then word_of_int (IBV h WC_RETRY_EXC_ERR)
      else if uint status = VIRTIO_IB h WC_RNR_RETRY_EXC_ERR
        then word_of_int (IBV h WC_RNR_RETRY_EXC_ERR)
      else if uint status = VIRTIO_IB h WC_REM_ABORT_ERR then word_of_int (IBV h WC_REM_ABORT_ERR)
      else if uint status = VIRTIO_IB h WC_FATAL_ERR then word_of_int (IBV h WC_FATAL_ERR)
      else if uint status = VIRTIO_IB h WC_RESP_TIMEOUT_ERR
        then word_of_int (IBV h WC_RESP_TIMEOUT_ERR)
      else if uint status = VIRTIO_IB h WC_GENERAL_ERR then word_of_int (IBV h WC_GENERAL_ERR)
      else word_of_int (- 1))"

definition to_ib_wc_opcode :: "abi \<Rightarrow> u8 \<Rightarrow> u8" where
  "to_ib_wc_opcode h opcode =
     (if uint opcode = VIRTIO_IB h WC_SEND then word_of_int (IBV h WC_SEND)
      else if uint opcode = VIRTIO_IB h WC_RDMA_WRITE then word_of_int (IBV h WC_RDMA_WRITE)
      else if uint opcode = VIRTIO_IB h WC_RDMA_READ then word_of_int (IBV h WC_RDMA_READ)
      else if uint opcode = VIRTIO_IB h WC_RECV then word_of_int (IBV h WC_RECV)
      else if uint opcode = VIRTIO_IB h WC_RECV_RDMA_WITH_IMM
        then word_of_int (IBV h WC_RECV_RDMA_WITH_IMM)
      else word_of_int (- 1))"

definition to_virtio_wr_opcode :: "abi \<Rightarrow> u8 \<Rightarrow> u8" where
  "to_virtio_wr_opcode h opcode =
     (if uint opcode = IBV h WR_RDMA_WRITE then word_of_int (VIRTIO_IB h WR_RDMA_WRITE)
      else if uint opcode = IBV h WR_RDMA_WRITE_WITH_IMM
        then word_of_int (VIRTIO_IB h WR_RDMA_WRITE_WITH_IMM)
      else if uint opcode = IBV h WR_SEND then word_of_int (VIRTIO_IB h WR_SEND)
      else if uint opcode = IBV h WR_SEND_WITH_IMM then word_of_int (VIRTIO_IB h WR_SEND_WITH_IMM)
      else if uint opcode = IBV h WR_RDMA_READ then word_of_int (VIRTIO_IB h WR_RDMA_READ)
      else word_of_int (- 1))"

definition to_ib_wc_flags :: "abi \<Rightarrow> u8 \<Rightarrow> u8" where
  "to_ib_wc_flags h flags =
     (if uint flags = VIRTIO_IB h WC_GRH then word_of_int (IBV h WC_GRH)
      else if uint flags = VIRTIO_IB h WC_WITH_IMM then word_of_int (IBV h WC_WITH_IMM)
      else word_of_int (- 1))"

definition to_virtio_send_flags :: "abi \<Rightarrow> u8 \<Rightarrow> u8" where
  "to_virtio_send_flags h flags =
     (if uint flags = IBV h SEND_FENCE then word_of_int (VIRTIO_IB h SEND_FENCE)
      else if uint flags = IBV h SEND_SIGNALED then word_of_int (VIRTIO_IB h SEND_SIGNALED)
      else if uint flags = IBV h SEND_SOLICITED then word_of_int (VIRTIO_IB h SEND_SOLICITED)
      else if uint flags = IBV h SEND_INLINE then word_of_int (VIRTIO_IB h SEND_INLINE)
      else word_of_int (- 1))"


subsection \<open>Work requests, wire records and completions\<close>

text \<open>\<^verbatim>\<open>struct ibv_sge\<close>; the wire descriptor \<^verbatim>\<open>struct virtio_rdma_sge\<close> is filled by
  \<^verbatim>\<open>memcpy\<close> from it and is represented by the same record.\<close>

record ibv_sge =
  sge_addr :: u64
  sge_length :: u32
  sge_lkey :: u32

text \<open>\<^verbatim>\<open>struct ibv_send_wr\<close> without its \<^verbatim>\<open>next\<close> pointer: a chain of requests is a list,
  and a pointer into the chain is the list that starts there (\<^verbatim>\<open>NULL\<close> is \<open>[]\<close>).
  \<open>ud_ah_num\<close> is \<^verbatim>\<open>to_vah(wr->wr.ud.ah)->ah_num\<close>.\<close>

record ibv_send_wr =
  wr_id :: u64
  sg_list :: "ibv_sge list"
  num_sge :: int
  opcode :: int
  send_flags :: u32
  imm_data :: u32
  rdma_remote_addr :: u64
  rdma_rkey :: u32
  ud_ah_num :: u32
  ud_remote_qpn :: u32
  ud_remote_qkey :: u32

record ibv_recv_wr =
  rwr_id :: u64
  rsg_list :: "ibv_sge list"
  rnum_sge :: int

text \<open>\<^verbatim>\<open>struct virtio_rdma_sq_req\<close>, the send wire record held in a pool slot.

  Modelled from the spec: the layout of the structure is in \<^verbatim>\<open>virtio_rdma_abi.h\<close>, which
  is not in the source. "Fixed header + either an inline payload region (raw bytes) or an
  appended scatter-gather descriptor array": the bytes of the slot that trail the header
  hold the inline payload or the descriptor array. The record keeps what was last copied
  through each of the two views, the inline bytes by offset and the descriptors as a
  list; which bytes of one view a copy through the other view changes is not modelled,
  nor is the layout of the \<^verbatim>\<open>ud\<close> and \<^verbatim>\<open>rdma\<close> members.

  A slot has a fixed size, so the inline region holds only the bytes that trail the header
  within the slot. \<open>req_overrun\<close> is not a member of the C structure: it counts the bytes
  that the last inline copy into this slot stored past the end of the slot, where the C
  code overwrites whatever follows the slot in the mapped region. The model leaves the
  records of the following slots as they are, so it describes the slot contents of a pool
  only as long as \<open>req_overrun\<close> is 0.\<close>

record virtio_rdma_sq_req =
  req_num_sge :: int
  req_send_flags :: u8
  req_opcode :: u8
  req_wr_id :: u64
  req_imm_data :: u32
  req_ud_remote_qpn :: u32
  req_ud_remote_qkey :: u32
  req_ud_ah :: u32
  req_rdma_remote_addr :: u64
  req_rdma_rkey :: u32
  req_inline_len :: u32
  req_inline_data :: "nat \<Rightarrow> u8"
  req_sg_list :: "ibv_sge list"
  req_overrun :: nat

record virtio_rdma_rq_req =
  rreq_num_sge :: int
  rreq_wr_id :: u64
  rreq_sg_list :: "ibv_sge list"

record virtio_rdma_cq_req =
  cqe_wr_id :: u64
  cqe_status :: u8
  cqe_opcode :: u8
  cqe_vendor_err :: u32
  cqe_byte_len :: u32
  cqe_imm_data :: u32
  cqe_src_qp :: u32
  cqe_wc_flags :: u8

record ibv_wc =
  wc_wr_id :: u64
  wc_status :: u8
  wc_opcode :: u8
  wc_vendor_err :: u32
  wc_byte_len :: u32
  wc_qp_num :: u32
  wc_imm_data :: u32
  wc_src_qp :: u32
  wc_wc_flags :: u8
  wc_pkey_index :: nat

datatype errno = ENOMEM | EOPNOTSUPP | EINVAL

subsection \<open>The shared ring and its buffer pool\<close>

text \<open>
  \<^verbatim>\<open>struct virtio_rdma_buf_pool_entry\<close> and the ring structure of \<^verbatim>\<open>virtio.h\<close>. A pool
  entry is named by its index in \<open>pool_table\<close>. The ring is kept as three queues of entry
  indices: the free list, the descriptors published to the backend (with their lengths,
  oldest first) and the descriptors the backend has returned and the driver has not yet
  taken (oldest first). \<open>doorbell\<close> says whether a doorbell word was negotiated and
  \<open>kicks\<close> counts the writes to it.
\<close>

record 'b virtio_rdma_buf_pool_entry =
  buf :: 'b
  len :: nat

record 'b virtio_rdma_vring =
  pool_table :: "'b virtio_rdma_buf_pool_entry list"
  flist :: "nat list"
  avail :: "(nat \<times> nat) list"
  used :: "nat list"
  doorbell :: bool
  kicks :: nat

text \<open>Modelled from the spec: \<^verbatim>\<open>vring_init_pool\<close> of \<^verbatim>\<open>virtio.h\<close> is not in the source.
  "Carves entryCount fixed-size slots from the mapped region, builds the index to slot
  lookup, seeds the free-list ring with all indices." \<open>ok\<close> is whether the build succeeds
  and \<open>mem\<close> is the content of the mapped slots; which region the slots are carved from
  (the \<^verbatim>\<open>backendResident\<close> argument) makes no difference to the queues and is left out.\<close>

definition vring_init_pool ::
  "bool \<Rightarrow> 'b \<Rightarrow> 'b virtio_rdma_vring \<Rightarrow> nat \<Rightarrow> nat \<Rightarrow> 'b virtio_rdma_vring option" where
  "vring_init_pool ok mem vq entryCount entrySize =
     (if ok
      then Some (vq\<lparr>pool_table := replicate entryCount \<lparr>buf = mem, len = entrySize\<rparr>,
                    flist := [0..<entryCount]\<rparr>)
      else None)"

text \<open>Modelled from the spec: \<^verbatim>\<open>vring_get_one\<close> of \<^verbatim>\<open>virtio.h\<close> is not in the source.
  "Non-blocking; returns the next backend-completed descriptor (consumer-index advance)
  or none if empty."\<close>

definition vring_get_one :: "'b virtio_rdma_vring \<Rightarrow> nat option \<times> 'b virtio_rdma_vring" where
  "vring_get_one vq =
     (case used vq of [] \<Rightarrow> (None, vq) | e # es \<Rightarrow> (Some e, vq\<lparr>used := es\<rparr>))"

text \<open>Modelled from the spec: \<^verbatim>\<open>vring_add_one\<close> of \<^verbatim>\<open>virtio.h\<close> is not in the source.
  "Writes entry's descriptor (address, length, flags) into the ring and advances the
  producer index."\<close>

definition vring_add_one :: "'b virtio_rdma_vring \<Rightarrow> nat \<Rightarrow> nat \<Rightarrow> 'b virtio_rdma_vring" where
  "vring_add_one vq e l = vq\<lparr>avail := avail vq @ [(e, l)]\<rparr>"

text \<open>Modelled from the spec: \<^verbatim>\<open>vring_flist_pop\<close> and \<^verbatim>\<open>vring_flist_push\<close> of \<^verbatim>\<open>virtio.h\<close>
  are not in the source. "O(1) acquire/release of a BufferPoolEntry from the free-list
  ring"; the pop returns none when the free list is empty.\<close>

definition vring_flist_pop :: "'b virtio_rdma_vring \<Rightarrow> nat option \<times> 'b virtio_rdma_vring" where
  "vring_flist_pop vq =
     (case flist vq of [] \<Rightarrow> (None, vq) | e # es \<Rightarrow> (Some e, vq\<lparr>flist := es\<rparr>))"

definition vring_flist_push :: "'b virtio_rdma_vring \<Rightarrow> nat \<Rightarrow> 'b virtio_rdma_vring" where
  "vring_flist_push vq e = vq\<lparr>flist := flist vq @ [e]\<rparr>"

text \<open>Modelled from the spec: \<^verbatim>\<open>vring_notify\<close> of \<^verbatim>\<open>virtio.h\<close> is not in the source.
  "If a doorbell memory word was negotiated, write to it."\<close>

definition vring_notify :: "'b virtio_rdma_vring \<Rightarrow> 'b virtio_rdma_vring" where
  "vring_notify vq = vq\<lparr>kicks := kicks vq + 1\<rparr>"

text \<open>Writing through \<^verbatim>\<open>buf_entry->buf\<close>: the slot of entry \<open>e\<close> is changed in place.\<close>

definition update_buf :: "'b virtio_rdma_vring \<Rightarrow> nat \<Rightarrow> ('b \<Rightarrow> 'b) \<Rightarrow> 'b virtio_rdma_vring" where
  "update_buf vq e f =
     vq\<lparr>pool_table := (pool_table vq)[e := (pool_table vq ! e)\<lparr>buf := f (buf (pool_table vq ! e))\<rparr>]\<rparr>"

text \<open>The entries a pool accounts for between two operations: those on the free list and
  those in the ring (published, or returned and not yet taken). No entry is held by the
  driver between two operations.\<close>

definition pool_count :: "'b virtio_rdma_vring \<Rightarrow> nat" where
  "pool_count vq = length (flist vq) + length (avail vq) + length (used vq)"

text \<open>The inner loop of both posting paths (lines 548-550 and 631-633): every returned
  descriptor is taken and pushed on the free list.\<close>

function reclaim :: "'b virtio_rdma_vring \<Rightarrow> 'b virtio_rdma_vring" where
  "reclaim vq =
     (case vring_get_one vq of
        (None, vq') \<Rightarrow> vq'
      | (Some e, vq') \<Rightarrow> reclaim (vring_flist_push vq' e))"
  by pat_completeness auto
termination
  by (relation "measure (\<lambda>vq. length (used vq))")
     (auto simp: vring_get_one_def vring_flist_push_def split: list.splits)

declare reclaim.simps [simp del]


section \<open>Completion queue\<close>

record virtio_rdma_cq =
  num_cqe :: nat
  vring :: "virtio_rdma_cq_req virtio_rdma_vring"

text \<open>A ring structure before \<^verbatim>\<open>vring_init_pool\<close> has run (\<^verbatim>\<open>calloc\<close> and
  \<^verbatim>\<open>vring_init_by_off\<close>): no slots, nothing in flight.\<close>

definition vring_empty :: "bool \<Rightarrow> 'b virtio_rdma_vring" where
  "vring_empty db =
     \<lparr>pool_table = [], flist = [], avail = [], used = [], doorbell = db, kicks = 0\<rparr>"

text \<open>The loop of lines 210-213: \<^verbatim>\<open>num_cqe\<close> times, pop an entry of the free list and
  publish it. The source does not test the popped entry; handing \<^verbatim>\<open>NULL\<close> to
  \<^verbatim>\<open>vring_add_one\<close> has no defined result, which is \<open>None\<close> here.\<close>

function create_cq_fill ::
  "abi \<Rightarrow> nat \<Rightarrow> nat \<Rightarrow> virtio_rdma_cq_req virtio_rdma_vring
     \<Rightarrow> virtio_rdma_cq_req virtio_rdma_vring option" where
  "create_cq_fill h i n vq =
     (if i < n
      then (case vring_flist_pop vq of
              (None, vq') \<Rightarrow> None
            | (Some buf_entry, vq') \<Rightarrow>
                create_cq_fill h (i + 1) n (vring_add_one vq' buf_entry (sizeof_cq_req h)))
      else Some vq)"
  by pat_completeness auto
termination
  by (relation "measure (\<lambda>(h, i, n, vq). n - i)") auto

declare create_cq_fill.simps [simp del]

text \<open>\<^verbatim>\<open>virtio_rdma_create_cq\<close>. The collaborators are inputs: \<open>cmd\<close> is the outcome of
  \<^verbatim>\<open>ibv_cmd_create_cq\<close> (\<open>None\<close> for a non-zero return code, otherwise the response's
  \<^verbatim>\<open>num_cqe\<close>), \<open>mapped\<close> whether \<^verbatim>\<open>mmap\<close> succeeded, \<open>pool_ok\<close> whether the pool could be
  built and \<open>mem\<close> the content of the mapped slots. \<open>None\<close> is the \<^verbatim>\<open>NULL\<close> result.\<close>

definition virtio_rdma_create_cq ::
  "abi \<Rightarrow> nat option \<Rightarrow> bool \<Rightarrow> bool \<Rightarrow> virtio_rdma_cq_req \<Rightarrow> virtio_rdma_cq option" where
  "virtio_rdma_create_cq h cmd mapped pool_ok mem =
     (case cmd of
        None \<Rightarrow> None
      | Some resp_num_cqe \<Rightarrow>
          if \<not> mapped then None
          else (case vring_init_pool pool_ok mem (vring_empty False) resp_num_cqe (sizeof_cq_req h) of
                  None \<Rightarrow> None
                | Some vq \<Rightarrow>
                    (case create_cq_fill h 0 resp_num_cqe vq of
                       None \<Rightarrow> None
                     | Some vq' \<Rightarrow> Some \<lparr>num_cqe = resp_num_cqe, vring = vq'\<rparr>)))"

text \<open>The loop of \<^verbatim>\<open>virtio_rdma_poll_cq\<close> (lines 319-337). \<open>wc\<close> is the caller's array;
  entry \<open>i\<close> is filled field by field (\<^verbatim>\<open>qp_num\<close> is left as it was) and the slot goes
  straight back into the ring with the length stored in the entry.\<close>

function poll_cq_loop ::
  "abi \<Rightarrow> int \<Rightarrow> int \<Rightarrow> virtio_rdma_cq_req virtio_rdma_vring \<Rightarrow> ibv_wc list
     \<Rightarrow> int \<times> virtio_rdma_cq_req virtio_rdma_vring \<times> ibv_wc list" where
  "poll_cq_loop h num_entries i vq wc =
     (if i < num_entries
      then (case vring_get_one vq of
              (None, vq') \<Rightarrow> (i, vq', wc)
            | (Some buf_entry, vq') \<Rightarrow>
                (let req = buf (pool_table vq' ! buf_entry);
                     wc' = wc[nat i := (wc ! nat i)
                             \<lparr>wc_wr_id := cqe_wr_id req,
                              wc_status := to_ib_status h (cqe_status req),
                              wc_opcode := to_ib_wc_opcode h (cqe_opcode req),
                              wc_vendor_err := cqe_vendor_err req,
                              wc_byte_len := cqe_byte_len req,
                              wc_imm_data := cqe_imm_data req,
                              wc_src_qp := cqe_src_qp req,
                              wc_wc_flags := to_ib_wc_flags h (cqe_wc_flags req),
                              wc_pkey_index := 0\<rparr>]
                 in poll_cq_loop h num_entries (i + 1)
                      (vring_add_one vq' buf_entry (len (pool_table vq' ! buf_entry))) wc'))
      else (i, vq, wc))"
  by pat_completeness auto
termination
  by (relation "measure (\<lambda>(h, num_entries, i, vq, wc). nat (num_entries - i))") auto

declare poll_cq_loop.simps [simp del]

text \<open>\<^verbatim>\<open>virtio_rdma_poll_cq\<close>: the number of entries filled, the queue and the array.\<close>

definition virtio_rdma_poll_cq ::
  "abi \<Rightarrow> virtio_rdma_cq \<Rightarrow> int \<Rightarrow> ibv_wc list \<Rightarrow> int \<times> virtio_rdma_cq \<times> ibv_wc list" where
  "virtio_rdma_poll_cq h cq num_entries wc =
     (case poll_cq_loop h num_entries 0 (vring cq) wc of
        (i, vq, wc') \<Rightarrow> (i, cq\<lparr>vring := vq\<rparr>, wc'))"

section \<open>Queue pair\<close>

text \<open>A command written to the command file descriptor by \<^verbatim>\<open>slow_doorbell\<close>: its
  \<^verbatim>\<open>hdr.command\<close>, \<^verbatim>\<open>wr_count\<close> and \<^verbatim>\<open>sge_count\<close>.\<close>

datatype uverbs_cmd = IB_USER_VERBS_CMD_POST_SEND | IB_USER_VERBS_CMD_POST_RECV

record virtio_rdma_qp =
  qp_type :: int
  qpn :: u32
  num_sqe :: nat
  num_rqe :: nat
  num_sq_sge :: nat
  num_rq_sge :: nat
  sq :: "virtio_rdma_sq_req virtio_rdma_vring"
  rq :: "virtio_rdma_rq_req virtio_rdma_vring"
  cmd_fd :: "(uverbs_cmd \<times> nat \<times> nat) list"

text \<open>The response of \<^verbatim>\<open>ibv_cmd_create_qp\<close>, as far as the data path depends on it.\<close>

record create_qp_resp =
  resp_num_sqe :: nat
  resp_num_rqe :: nat
  resp_notifier_size :: u32
  resp_qpn :: u32

text \<open>\<^verbatim>\<open>virtio_rdma_create_qp\<close>. \<open>attr_qp_type\<close>, \<open>max_send_sge\<close> and \<open>max_recv_sge\<close> are the
  caller's attributes; \<open>cmd\<close> is the outcome of \<^verbatim>\<open>ibv_cmd_create_qp\<close>; the four flags say
  whether each \<^verbatim>\<open>mmap\<close> and each pool build succeeded. The entry size of a pool is the
  record header plus the negotiated number of descriptors.\<close>

definition virtio_rdma_create_qp ::
  "abi \<Rightarrow> int \<Rightarrow> nat \<Rightarrow> nat \<Rightarrow> create_qp_resp option \<Rightarrow> bool \<Rightarrow> bool \<Rightarrow> bool \<Rightarrow> bool
     \<Rightarrow> virtio_rdma_sq_req \<Rightarrow> virtio_rdma_rq_req \<Rightarrow> virtio_rdma_qp option" where
  "virtio_rdma_create_qp h attr_qp_type max_send_sge max_recv_sge cmd
       sq_mapped sq_pool_ok rq_mapped rq_pool_ok sq_mem rq_mem =
     (case cmd of
        None \<Rightarrow> None
      | Some resp \<Rightarrow>
          if \<not> sq_mapped then None
          else (case vring_init_pool sq_pool_ok sq_mem
                       (vring_empty (resp_notifier_size resp \<noteq> 0)) (resp_num_sqe resp)
                       (sizeof_sq_req h + max_send_sge * sizeof_sge h) of
                  None \<Rightarrow> None
                | Some sq0 \<Rightarrow>
                    if \<not> rq_mapped then None
                    else (case vring_init_pool rq_pool_ok rq_mem
                                 (vring_empty (resp_notifier_size resp \<noteq> 0)) (resp_num_rqe resp)
                                 (sizeof_rq_req h + max_recv_sge * sizeof_sge h) of
                            None \<Rightarrow> None
                          | Some rq0 \<Rightarrow>
                              Some \<lparr>qp_type = attr_qp_type, qpn = resp_qpn resp,
                                    num_sqe = resp_num_sqe resp, num_rqe = resp_num_rqe resp,
                                    num_sq_sge = max_send_sge, num_rq_sge = max_recv_sge,
                                    sq = sq0, rq = rq0, cmd_fd = []\<rparr>)))"

text \<open>\<^verbatim>\<open>slow_doorbell\<close>: a null work request written to the command file descriptor. Its
  return value is not used by the callers.\<close>

definition slow_doorbell :: "virtio_rdma_qp \<Rightarrow> bool \<Rightarrow> virtio_rdma_qp" where
  "slow_doorbell qp send =
     qp\<lparr>cmd_fd := cmd_fd qp @
         [(if send then IB_USER_VERBS_CMD_POST_SEND else IB_USER_VERBS_CMD_POST_RECV, 0, 0)]\<rparr>"


subsection \<open>Posting send requests\<close>

text \<open>\<^verbatim>\<open>memcpy(p, (void *)sge->addr, sge->length)\<close> into the inline region of a slot
  whose inline region has room for \<open>cap\<close> bytes: \<open>n\<close> bytes of application memory \<open>mem\<close>
  from address \<open>a\<close> are stored from offset \<open>p\<close> on. The C code has no bound: the bytes at
  offsets below \<open>cap\<close> land in the slot, the others behind it.\<close>

definition memcpy_inline ::
  "(nat \<Rightarrow> u8) \<Rightarrow> nat \<Rightarrow> nat \<Rightarrow> (u64 \<Rightarrow> u8) \<Rightarrow> u64 \<Rightarrow> nat \<Rightarrow> (nat \<Rightarrow> u8)" where
  "memcpy_inline dst cap p mem a n =
     (\<lambda>k. if p \<le> k \<and> k < p + n \<and> k < cap then mem (a + of_nat (k - p)) else dst k)"

text \<open>How many of the \<open>n\<close> bytes stored from offset \<open>p\<close> on lie at or beyond offset
  \<open>cap\<close>, that is, behind the slot.\<close>

definition memcpy_overrun :: "nat \<Rightarrow> nat \<Rightarrow> nat \<Rightarrow> nat" where
  "memcpy_overrun cap p n = (p + n) - max p cap"

text \<open>The loop of \<^verbatim>\<open>copy_inline_data_to_wqe\<close> over the fragments still to copy; \<open>p\<close> is the
  write position in the inline region and \<open>cap\<close> the room of the slot's inline region.\<close>

fun copy_inline_sges ::
  "(u64 \<Rightarrow> u8) \<Rightarrow> nat \<Rightarrow> ibv_sge list \<Rightarrow> nat \<Rightarrow> virtio_rdma_sq_req \<Rightarrow> virtio_rdma_sq_req" where
  "copy_inline_sges mem cap [] p req = req"
| "copy_inline_sges mem cap (sge # sges) p req =
     copy_inline_sges mem cap sges (p + unat (sge_length sge))
       (req\<lparr>req_inline_data :=
              memcpy_inline (req_inline_data req) cap p mem (sge_addr sge) (unat (sge_length sge)),
            req_inline_len := req_inline_len req + sge_length sge,
            req_overrun := req_overrun req + memcpy_overrun cap p (unat (sge_length sge))\<rparr>)"

text \<open>\<^verbatim>\<open>copy_inline_data_to_wqe\<close>: the first \<^verbatim>\<open>num_sge\<close> fragments of the request, from the
  start of the inline region. \<open>cap\<close> is not an argument of the C function, which knows
  no bound; it is the room of the inline region of the slot that \<open>req\<close> points into.\<close>

definition copy_inline_data_to_wqe ::
  "(u64 \<Rightarrow> u8) \<Rightarrow> nat \<Rightarrow> virtio_rdma_sq_req \<Rightarrow> ibv_send_wr \<Rightarrow> virtio_rdma_sq_req" where
  "copy_inline_data_to_wqe mem cap req ibwr =
     copy_inline_sges mem cap (take (nat (num_sge ibwr)) (sg_list ibwr)) 0
       (req\<lparr>req_overrun := 0\<rparr>)"

text \<open>\<^verbatim>\<open>sgl_len = sizeof(*sgl) * wr->num_sge\<close>, stored in a \<^verbatim>\<open>uint32_t\<close>.\<close>

definition sgl_len_of :: "abi \<Rightarrow> int \<Rightarrow> u32" where
  "sgl_len_of h n = word_of_int (int (sizeof_sge h) * n)"

text \<open>\<^verbatim>\<open>memcpy(sgl, wr->sg_list, sgl_len)\<close>: the descriptors that \<open>sgl_len\<close> bytes cover
  replace the start of the slot's descriptor array.\<close>

definition memcpy_sgl :: "abi \<Rightarrow> ibv_sge list \<Rightarrow> ibv_sge list \<Rightarrow> u32 \<Rightarrow> ibv_sge list" where
  "memcpy_sgl h sgl src sgl_len =
     (let copied = take (unat sgl_len div sizeof_sge h) src
      in copied @ drop (length copied) sgl)"

text \<open>Lines 564-568: the header fields of the wire record.\<close>

definition post_send_header :: "abi \<Rightarrow> ibv_send_wr \<Rightarrow> virtio_rdma_sq_req \<Rightarrow> virtio_rdma_sq_req" where
  "post_send_header h wr req =
     req\<lparr>req_num_sge := num_sge wr,
         req_send_flags := to_virtio_send_flags h (ucast (send_flags wr)),
         req_opcode := to_virtio_wr_opcode h (word_of_int (opcode wr)),
         req_wr_id := wr_id wr,
         req_imm_data := imm_data wr\<rparr>"

text \<open>Lines 570-595: the switch on the queue pair type and, for a reliable connection,
  on the opcode.\<close>

definition post_send_addressing ::
  "abi \<Rightarrow> int \<Rightarrow> ibv_send_wr \<Rightarrow> virtio_rdma_sq_req \<Rightarrow> errno + virtio_rdma_sq_req" where
  "post_send_addressing h qpt wr req =
     (if qpt = IBV h QPT_UD
      then Inr (req\<lparr>req_ud_remote_qpn := ud_remote_qpn wr,
                    req_ud_remote_qkey := ud_remote_qkey wr,
                    req_ud_ah := ud_ah_num wr\<rparr>)
      else if qpt = IBV h QPT_RC
      then (if opcode wr = IBV h WR_RDMA_READ \<or> opcode wr = IBV h WR_RDMA_WRITE
               \<or> opcode wr = IBV h WR_RDMA_WRITE_WITH_IMM
            then Inr (req\<lparr>req_rdma_remote_addr := rdma_remote_addr wr,
                          req_rdma_rkey := rdma_rkey wr\<rparr>)
            else if opcode wr = IBV h WR_SEND \<or> opcode wr = IBV h WR_SEND_WITH_IMM
            then Inr req
            else Inl EOPNOTSUPP)
      else Inl EINVAL)"

text \<open>Lines 597-602: the payload. The result is the record and the value of \<^verbatim>\<open>sgl_len\<close>
  that the publication uses. \<open>cap\<close> is the room of the slot's inline region.\<close>

definition post_send_payload ::
  "abi \<Rightarrow> (u64 \<Rightarrow> u8) \<Rightarrow> nat \<Rightarrow> ibv_send_wr \<Rightarrow> virtio_rdma_sq_req
     \<Rightarrow> virtio_rdma_sq_req \<times> u32" where
  "post_send_payload h mem cap wr req =
     (if send_flags wr AND word_of_int (IBV h SEND_INLINE) \<noteq> 0
      then (copy_inline_data_to_wqe mem cap (req\<lparr>req_inline_len := 0\<rparr>) wr, 0)
      else (req\<lparr>req_sg_list := memcpy_sgl h (req_sg_list req) (sg_list wr) (sgl_len_of h (num_sge wr))\<rparr>,
            sgl_len_of h (num_sge wr)))"

text \<open>The outer loop of \<^verbatim>\<open>virtio_rdma_post_send\<close> (lines 547-607). The result is the
  error of the \<^verbatim>\<open>goto out_err\<close> that ended it (\<open>None\<close> when the loop ran to the end of the
  chain), the value of \<^verbatim>\<open>wr\<close> at that point and the send ring. The room of a slot's
  inline region is the length of the slot less the header.\<close>

fun post_send_loop ::
  "abi \<Rightarrow> (u64 \<Rightarrow> u8) \<Rightarrow> int \<Rightarrow> virtio_rdma_sq_req virtio_rdma_vring \<Rightarrow> ibv_send_wr list
     \<Rightarrow> errno option \<times> ibv_send_wr list \<times> virtio_rdma_sq_req virtio_rdma_vring" where
  "post_send_loop h mem qpt vq [] = (None, [], vq)"
| "post_send_loop h mem qpt vq (wr # nxt) =
     (case vring_flist_pop (reclaim vq) of
        (None, vq1) \<Rightarrow> (Some ENOMEM, wr # nxt, vq1)
      | (Some buf_entry, vq1) \<Rightarrow>
          (let vq2 = update_buf vq1 buf_entry (post_send_header h wr)
           in case post_send_addressing h qpt wr (buf (pool_table vq2 ! buf_entry)) of
                Inl err \<Rightarrow> (Some err, wr # nxt, vq2)
              | Inr req \<Rightarrow>
                  (case post_send_payload h mem
                          (len (pool_table vq2 ! buf_entry) - sizeof_sq_req h) wr req of
                     (req', sgl_len) \<Rightarrow>
                       post_send_loop h mem qpt
                         (vring_add_one (update_buf vq2 buf_entry (\<lambda>_. req')) buf_entry
                            (sizeof_sq_req h + unat sgl_len))
                         nxt)))"

text \<open>\<^verbatim>\<open>virtio_rdma_post_send\<close>: the return code (\<open>None\<close> for 0, \<open>Some e\<close> for \<open>-e\<close>), the
  content of \<^verbatim>\<open>*bad_wr\<close> and the queue pair. \<open>bad_wr\<close> is what \<^verbatim>\<open>*bad_wr\<close> held before
  the call.\<close>

definition virtio_rdma_post_send ::
  "abi \<Rightarrow> (u64 \<Rightarrow> u8) \<Rightarrow> virtio_rdma_qp \<Rightarrow> ibv_send_wr list \<Rightarrow> ibv_send_wr list
     \<Rightarrow> errno option \<times> ibv_send_wr list \<times> virtio_rdma_qp" where
  "virtio_rdma_post_send h mem qp wr bad_wr =
     (case post_send_loop h mem (qp_type qp) (sq qp) wr of
        (None, wr', vq) \<Rightarrow>
          (None, wr',
           if doorbell vq then qp\<lparr>sq := vring_notify vq\<rparr>
           else slow_doorbell (qp\<lparr>sq := vq\<rparr>) True)
      | (Some err, wr', vq) \<Rightarrow> (Some err, wr', qp\<lparr>sq := vq\<rparr>))"

subsection \<open>Posting receive requests\<close>

text \<open>The outer loop of \<^verbatim>\<open>virtio_rdma_post_recv\<close> (lines 630-655).\<close>

fun post_recv_loop ::
  "abi \<Rightarrow> virtio_rdma_rq_req virtio_rdma_vring \<Rightarrow> ibv_recv_wr list
     \<Rightarrow> errno option \<times> ibv_recv_wr list \<times> virtio_rdma_rq_req virtio_rdma_vring" where
  "post_recv_loop h vq [] = (None, [], vq)"
| "post_recv_loop h vq (wr # nxt) =
     (case vring_flist_pop (reclaim vq) of
        (None, vq1) \<Rightarrow> (Some ENOMEM, wr # nxt, vq1)
      | (Some buf_entry, vq1) \<Rightarrow>
          post_recv_loop h
            (vring_add_one
               (update_buf vq1 buf_entry
                  (\<lambda>req. req\<lparr>rreq_num_sge := rnum_sge wr,
                             rreq_wr_id := rwr_id wr,
                             rreq_sg_list := memcpy_sgl h (rreq_sg_list req) (rsg_list wr)
                                               (sgl_len_of h (rnum_sge wr))\<rparr>))
               buf_entry (sizeof_rq_req h + unat (sgl_len_of h (rnum_sge wr))))
            nxt)"

text \<open>\<^verbatim>\<open>virtio_rdma_post_recv\<close>: \<^verbatim>\<open>*bad_wr\<close> is assigned on the error path only.\<close>

definition virtio_rdma_post_recv ::
  "abi \<Rightarrow> virtio_rdma_qp \<Rightarrow> ibv_recv_wr list \<Rightarrow> ibv_recv_wr list
     \<Rightarrow> errno option \<times> ibv_recv_wr list \<times> virtio_rdma_qp" where
  "virtio_rdma_post_recv h qp wr bad_wr =
     (case post_recv_loop h (rq qp) wr of
        (None, wr', vq) \<Rightarrow>
          (None, bad_wr,
           if doorbell vq then qp\<lparr>rq := vring_notify vq\<rparr>
           else slow_doorbell (qp\<lparr>rq := vq\<rparr>) False)
      | (Some err, wr', vq) \<Rightarrow> (Some err, wr', qp\<lparr>rq := vq\<rparr>))"


section \<open>Admissible header constants\<close>

text \<open>
  What the theorems below assume of the header constants: every status and opcode
  enumerator is a byte value other than \<open>0xFF\<close>, every flag enumerator is a byte value
  with bit 7 clear, the members of one enumeration have pairwise different values, and
  the two queue-pair types differ.
\<close>

definition code_value :: "int \<Rightarrow> bool" where
  "code_value v = (0 \<le> v \<and> v < 255)"

definition flag_value :: "int \<Rightarrow> bool" where
  "flag_value v = (0 \<le> v \<and> v < 128)"

definition abi_wf :: "abi \<Rightarrow> bool" where
  "abi_wf h =
     (list_all (\<lambda>e. code_value (VIRTIO_IB h e) \<and> code_value (IBV h e))
        (wc_status_members @ wc_opcode_members @ wr_opcode_members)
      \<and> list_all (\<lambda>e. flag_value (VIRTIO_IB h e) \<and> flag_value (IBV h e))
          (send_flag_members @ wc_flag_members)
      \<and> distinct (map (VIRTIO_IB h) wc_status_members)
      \<and> distinct (map (IBV h) wc_status_members)
      \<and> distinct (map (VIRTIO_IB h) wc_opcode_members)
      \<and> distinct (map (IBV h) wc_opcode_members)
      \<and> distinct (map (VIRTIO_IB h) wr_opcode_members)
      \<and> distinct (map (IBV h) wr_opcode_members)
      \<and> distinct (map (VIRTIO_IB h) send_flag_members)
      \<and> distinct (map (IBV h) send_flag_members)
      \<and> distinct (map (VIRTIO_IB h) wc_flag_members)
      \<and> distinct (map (IBV h) wc_flag_members)
      \<and> IBV h QPT_RC \<noteq> IBV h QPT_UD)"

text \<open>
  One admissible assignment, used to evaluate the model on concrete inputs. The generic
  enumerators have the values of the verbs interface (\<^verbatim>\<open>enum ibv_wc_status\<close>,
  \<^verbatim>\<open>ibv_wc_opcode\<close>, \<^verbatim>\<open>ibv_wr_opcode\<close>, \<^verbatim>\<open>ibv_send_flags\<close>, \<^verbatim>\<open>ibv_wc_flags\<close>,
  \<^verbatim>\<open>ibv_qp_type\<close>). The wire enumerators are numbered from 0 in the order in which the
  source lists them, the wire flags are single bits, and the structure sizes are examples.
\<close>

fun verbs_value :: "enumerator \<Rightarrow> int" where
  "verbs_value WC_SUCCESS = 0"
| "verbs_value WC_LOC_LEN_ERR = 1"
| "verbs_value WC_LOC_QP_OP_ERR = 2"
| "verbs_value WC_LOC_PROT_ERR = 4"
| "verbs_value WC_WR_FLUSH_ERR = 5"
| "verbs_value WC_BAD_RESP_ERR = 7"
| "verbs_value WC_LOC_ACCESS_ERR = 8"
| "verbs_value WC_REM_INV_REQ_ERR = 9"
| "verbs_value WC_REM_ACCESS_ERR = 10"
| "verbs_value WC_REM_OP_ERR = 11"
| "verbs_value WC_RETRY_EXC_ERR = 12"
| "verbs_value WC_RNR_RETRY_EXC_ERR = 13"
| "verbs_value WC_REM_ABORT_ERR = 16"
| "verbs_value WC_FATAL_ERR = 19"
| "verbs_value WC_RESP_TIMEOUT_ERR = 20"
| "verbs_value WC_GENERAL_ERR = 21"
| "verbs_value WC_SEND = 0"
| "verbs_value WC_RDMA_WRITE = 1"
| "verbs_value WC_RDMA_READ = 2"
| "verbs_value WC_RECV = 128"
| "verbs_value WC_RECV_RDMA_WITH_IMM = 129"
| "verbs_value WR_RDMA_WRITE = 0"
| "verbs_value WR_RDMA_WRITE_WITH_IMM = 1"
| "verbs_value WR_SEND = 2"
| "verbs_value WR_SEND_WITH_IMM = 3"
| "verbs_value WR_RDMA_READ = 4"
| "verbs_value SEND_FENCE = 1"
| "verbs_value SEND_SIGNALED = 2"
| "verbs_value SEND_SOLICITED = 4"
| "verbs_value SEND_INLINE = 8"
| "verbs_value WC_GRH = 1"
| "verbs_value WC_WITH_IMM = 2"
| "verbs_value QPT_RC = 2"
| "verbs_value QPT_UD = 4"

fun wire_value :: "enumerator \<Rightarrow> int" where
  "wire_value WC_SUCCESS = 0"
| "wire_value WC_LOC_LEN_ERR = 1"
| "wire_value WC_LOC_QP_OP_ERR = 2"
| "wire_value WC_LOC_PROT_ERR = 3"
| "wire_value WC_WR_FLUSH_ERR = 4"
| "wire_value WC_BAD_RESP_ERR = 5"
| "wire_value WC_LOC_ACCESS_ERR = 6"
| "wire_value WC_REM_INV_REQ_ERR = 7"
| "wire_value WC_REM_ACCESS_ERR = 8"
| "wire_value WC_REM_OP_ERR = 9"
| "wire_value WC_RETRY_EXC_ERR = 10"
| "wire_value WC_RNR_RETRY_EXC_ERR = 11"
| "wire_value WC_REM_ABORT_ERR = 12"
| "wire_value WC_FATAL_ERR = 13"
| "wire_value WC_RESP_TIMEOUT_ERR = 14"
| "wire_value WC_GENERAL_ERR = 15"
| "wire_value WC_SEND = 0"
| "wire_value WC_RDMA_WRITE = 1"
| "wire_value WC_RDMA_READ = 2"
| "wire_value WC_RECV = 3"
| "wire_value WC_RECV_RDMA_WITH_IMM = 4"
| "wire_value WR_RDMA_WRITE = 0"
| "wire_value WR_RDMA_WRITE_WITH_IMM = 1"
| "wire_value WR_SEND = 2"
| "wire_value WR_SEND_WITH_IMM = 3"
| "wire_value WR_RDMA_READ = 4"
| "wire_value SEND_FENCE = 1"
| "wire_value SEND_SIGNALED = 2"
| "wire_value SEND_SOLICITED = 4"
| "wire_value SEND_INLINE = 8"
| "wire_value WC_GRH = 1"
| "wire_value WC_WITH_IMM = 2"
| "wire_value QPT_RC = 2"
| "wire_value QPT_UD = 4"

definition ref_abi :: abi where
  "ref_abi = \<lparr>VIRTIO_IB = wire_value, IBV = verbs_value,
               sizeof_sq_req = 64, sizeof_rq_req = 16, sizeof_cq_req = 32, sizeof_sge = 16\<rparr>"

section \<open>Vocabulary of the properties\<close>

text \<open>A \<^verbatim>\<open>switch\<close> over a byte in tabular form: the case labels with the values
  returned, in the order of the source, and \<open>-1\<close> when no label matches.\<close>

fun switch_u8 :: "(int \<times> u8) list \<Rightarrow> u8 \<Rightarrow> u8" where
  "switch_u8 [] x = word_of_int (- 1)"
| "switch_u8 ((l, r) # cs) x = (if uint x = l then r else switch_u8 cs x)"

definition switch_table ::
  "(enumerator \<Rightarrow> int) \<Rightarrow> (enumerator \<Rightarrow> int) \<Rightarrow> enumerator list \<Rightarrow> (int \<times> u8) list" where
  "switch_table from to es = map (\<lambda>e. (from e, word_of_int (to e))) es"

text \<open>A request passes the switch of lines 570-595: the queue pair is an unreliable
  datagram one, or a reliable connection and the opcode is one of the five it lists.\<close>

definition supported :: "abi \<Rightarrow> int \<Rightarrow> ibv_send_wr \<Rightarrow> bool" where
  "supported h qpt wr =
     (qpt = IBV h QPT_UD \<or> (qpt = IBV h QPT_RC \<and> opcode wr \<in> set (map (IBV h) wr_opcode_members)))"


text \<open>The bytes of the fragments, in list order, one fragment after the other.\<close>

definition inline_bytes :: "(u64 \<Rightarrow> u8) \<Rightarrow> ibv_sge list \<Rightarrow> u8 list" where
  "inline_bytes mem sges =
     concat (map (\<lambda>s. map (\<lambda>k. mem (sge_addr s + of_nat k)) [0..<unat (sge_length s)]) sges)"

section \<open>Example objects\<close>

text \<open>Concrete requests, slots and queues on which the model is evaluated.\<close>

definition zero_sq_req :: virtio_rdma_sq_req where
  "zero_sq_req =
     \<lparr>req_num_sge = 0, req_send_flags = 0, req_opcode = 0, req_wr_id = 0, req_imm_data = 0,
      req_ud_remote_qpn = 0, req_ud_remote_qkey = 0, req_ud_ah = 0,
      req_rdma_remote_addr = 0, req_rdma_rkey = 0, req_inline_len = 0,
      req_inline_data = (\<lambda>_. 0), req_sg_list = [], req_overrun = 0\<rparr>"

definition zero_rq_req :: virtio_rdma_rq_req where
  "zero_rq_req = \<lparr>rreq_num_sge = 0, rreq_wr_id = 0, rreq_sg_list = []\<rparr>"

definition zero_cq_req :: virtio_rdma_cq_req where
  "zero_cq_req =
     \<lparr>cqe_wr_id = 0, cqe_status = 0, cqe_opcode = 0, cqe_vendor_err = 0, cqe_byte_len = 0,
      cqe_imm_data = 0, cqe_src_qp = 0, cqe_wc_flags = 0\<rparr>"

definition example_sge :: "u64 \<Rightarrow> u32 \<Rightarrow> ibv_sge" where
  "example_sge a n = \<lparr>sge_addr = a, sge_length = n, sge_lkey = 0\<rparr>"

definition example_send_wr :: "u64 \<Rightarrow> int \<Rightarrow> u32 \<Rightarrow> ibv_sge list \<Rightarrow> ibv_send_wr" where
  "example_send_wr i op fl sges =
     \<lparr>wr_id = i, sg_list = sges, num_sge = int (length sges), opcode = op, send_flags = fl,
      imm_data = 0, rdma_remote_addr = 0, rdma_rkey = 0, ud_ah_num = 7, ud_remote_qpn = 8,
      ud_remote_qkey = 9\<rparr>"

definition example_recv_wr :: "u64 \<Rightarrow> ibv_sge list \<Rightarrow> ibv_recv_wr" where
  "example_recv_wr i sges = \<lparr>rwr_id = i, rsg_list = sges, rnum_sge = int (length sges)\<rparr>"

definition example_resp :: "nat \<Rightarrow> u32 \<Rightarrow> create_qp_resp" where
  "example_resp depth notifier =
     \<lparr>resp_num_sqe = depth, resp_num_rqe = depth, resp_notifier_size = notifier, resp_qpn = 1\<rparr>"

text \<open>The queue pair that \<^verbatim>\<open>virtio_rdma_create_qp\<close> returns for type \<open>qpt\<close>, the given
  depth of both queues, \<open>max_sge\<close> descriptors per request in both directions and the
  given notifier size, with the constants \<open>ref_abi\<close> and zeroed slots.\<close>

definition example_qp :: "int \<Rightarrow> nat \<Rightarrow> nat \<Rightarrow> u32 \<Rightarrow> virtio_rdma_qp" where
  "example_qp qpt depth max_sge notifier =
     \<lparr>qp_type = qpt, qpn = 1, num_sqe = depth, num_rqe = depth,
      num_sq_sge = max_sge, num_rq_sge = max_sge,
      sq = \<lparr>pool_table = replicate depth \<lparr>buf = zero_sq_req, len = 64 + max_sge * 16\<rparr>,
             flist = [0..<depth], avail = [], used = [], doorbell = (notifier \<noteq> 0), kicks = 0\<rparr>,
      rq = \<lparr>pool_table = replicate depth \<lparr>buf = zero_rq_req, len = 16 + max_sge * 16\<rparr>,
             flist = [0..<depth], avail = [], used = [], doorbell = (notifier \<noteq> 0), kicks = 0\<rparr>,
      cmd_fd = []\<rparr>"

text \<open>Application memory in which every byte holds the low byte of its address.\<close>

definition example_mem :: "u64 \<Rightarrow> u8" where
  "example_mem a = ucast a"



section \<open>Translation tables\<close>

lemmas members_defs = wc_status_members_def wc_opcode_members_def wr_opcode_members_def
  send_flag_members_def wc_flag_members_def

lemma abi_wf_ref_abi: "abi_wf ref_abi"
  by (simp add: abi_wf_def ref_abi_def members_defs code_value_def flag_value_def)

lemma uint_code: "0 \<le> v \<Longrightarrow> v < 256 \<Longrightarrow> uint (word_of_int v :: u8) = v"
  by (simp add: uint_word_of_int)

text \<open>On an argument that is none of its case labels each function returns \<^verbatim>\<open>-1\<close>
  narrowed to a byte.\<close>

lemma status_unmapped:
  "uint x \<notin> set (map (VIRTIO_IB h) wc_status_members) \<Longrightarrow> to_ib_status h x = 0xFF"
  by (simp add: to_ib_status_def wc_status_members_def)

lemma wc_opcode_unmapped:
  "uint x \<notin> set (map (VIRTIO_IB h) wc_opcode_members) \<Longrightarrow> to_ib_wc_opcode h x = 0xFF"
  by (simp add: to_ib_wc_opcode_def wc_opcode_members_def)

lemma wr_opcode_unmapped:
  "uint x \<notin> set (map (IBV h) wr_opcode_members) \<Longrightarrow> to_virtio_wr_opcode h x = 0xFF"
  by (simp add: to_virtio_wr_opcode_def wr_opcode_members_def)

lemma send_flags_unmapped:
  "uint x \<notin> set (map (IBV h) send_flag_members) \<Longrightarrow> to_virtio_send_flags h x = 0xFF"
  by (simp add: to_virtio_send_flags_def send_flag_members_def)

lemma wc_flags_unmapped:
  "uint x \<notin> set (map (VIRTIO_IB h) wc_flag_members) \<Longrightarrow> to_ib_wc_flags h x = 0xFF"
  by (simp add: to_ib_wc_flags_def wc_flag_members_def)

lemma wf_codes:
  "abi_wf h \<Longrightarrow> e \<in> set (wc_status_members @ wc_opcode_members @ wr_opcode_members)
     \<Longrightarrow> code_value (VIRTIO_IB h e) \<and> code_value (IBV h e)"
  by (simp add: abi_wf_def list_all_iff del: set_append)

lemma wf_flags:
  "abi_wf h \<Longrightarrow> e \<in> set (send_flag_members @ wc_flag_members)
     \<Longrightarrow> flag_value (VIRTIO_IB h e) \<and> flag_value (IBV h e)"
  by (simp add: abi_wf_def list_all_iff del: set_append)

lemma wf_distinct:
  assumes "abi_wf h"
  shows "distinct (map (VIRTIO_IB h) wc_status_members)" "distinct (map (IBV h) wc_status_members)"
    "distinct (map (VIRTIO_IB h) wr_opcode_members)" "distinct (map (IBV h) wr_opcode_members)"
    "distinct (map (VIRTIO_IB h) send_flag_members)" "distinct (map (IBV h) send_flag_members)"
  using assms by (simp_all add: abi_wf_def)

lemma uint_member_code:
  "abi_wf h \<Longrightarrow> e \<in> set (wc_status_members @ wc_opcode_members @ wr_opcode_members)
     \<Longrightarrow> uint (word_of_int (VIRTIO_IB h e) :: u8) = VIRTIO_IB h e
       \<and> uint (word_of_int (IBV h e) :: u8) = IBV h e"
  using wf_codes [of h e] by (simp add: code_value_def uint_code)

lemma uint_member_flag:
  "abi_wf h \<Longrightarrow> e \<in> set (send_flag_members @ wc_flag_members)
     \<Longrightarrow> uint (word_of_int (VIRTIO_IB h e) :: u8) = VIRTIO_IB h e
       \<and> uint (word_of_int (IBV h e) :: u8) = IBV h e"
  using wf_flags [of h e] by (simp add: flag_value_def uint_code)

lemma to_ib_status_table:
  "to_ib_status h = switch_u8 (switch_table (VIRTIO_IB h) (IBV h) wc_status_members)"
  by (rule ext) (simp add: to_ib_status_def switch_table_def wc_status_members_def)

lemma to_virtio_wr_opcode_table:
  "to_virtio_wr_opcode h = switch_u8 (switch_table (IBV h) (VIRTIO_IB h) wr_opcode_members)"
  by (rule ext) (simp add: to_virtio_wr_opcode_def switch_table_def wr_opcode_members_def)

lemma to_virtio_send_flags_table:
  "to_virtio_send_flags h = switch_u8 (switch_table (IBV h) (VIRTIO_IB h) send_flag_members)"
  by (rule ext) (simp add: to_virtio_send_flags_def switch_table_def send_flag_members_def)

lemma switch_table_hit:
  "distinct (map from es) \<Longrightarrow> e \<in> set es \<Longrightarrow> uint x = from e
     \<Longrightarrow> switch_u8 (switch_table from to es) x = word_of_int (to e)"
proof (induction es)
  case Nil
  then show ?case by simp
next
  case (Cons a es)
  show ?case
  proof (cases "e = a")
    case True
    with Cons.prems show ?thesis by (simp add: switch_table_def)
  next
    case False
    with Cons.prems have m: "e \<in> set es" and d: "distinct (map from es)"
      and n: "from a \<notin> from ` set es" by auto
    from m n have "from e \<noteq> from a" by (metis imageI)
    with Cons.prems(3) have "uint x \<noteq> from a" by simp
    with Cons.IH [OF d m Cons.prems(3)] show ?thesis by (simp add: switch_table_def)
  qed
qed

lemma wr_opcode_mapped:
  assumes wf: "abi_wf h" and e: "e \<in> set wr_opcode_members"
  shows "to_virtio_wr_opcode h (word_of_int (IBV h e)) = word_of_int (VIRTIO_IB h e)"
proof -
  have u: "uint (word_of_int (IBV h e) :: u8) = IBV h e"
    using uint_member_code [OF wf, of e] e by simp
  show ?thesis
    unfolding to_virtio_wr_opcode_table
    by (rule switch_table_hit [OF wf_distinct(4) [OF wf] e u])
qed

lemma send_flags_mapped:
  assumes wf: "abi_wf h" and e: "e \<in> set send_flag_members"
  shows "to_virtio_send_flags h (word_of_int (IBV h e)) = word_of_int (VIRTIO_IB h e)"
proof -
  have u: "uint (word_of_int (IBV h e) :: u8) = IBV h e"
    using uint_member_flag [OF wf, of e] e by simp
  show ?thesis
    unfolding to_virtio_send_flags_table
    by (rule switch_table_hit [OF wf_distinct(6) [OF wf] e u])
qed

lemma status_mapped:
  assumes wf: "abi_wf h" and e: "e \<in> set wc_status_members"
  shows "to_ib_status h (word_of_int (VIRTIO_IB h e)) = word_of_int (IBV h e)"
proof -
  have u: "uint (word_of_int (VIRTIO_IB h e) :: u8) = VIRTIO_IB h e"
    using uint_member_code [OF wf, of e] e by simp
  show ?thesis
    unfolding to_ib_status_table
    by (rule switch_table_hit [OF wf_distinct(1) [OF wf] e u])
qed

lemma inj_on_bytes:
  assumes "distinct (map f es)" and "\<forall>e \<in> set es. 0 \<le> f e \<and> f e < 256"
  shows "inj_on (\<lambda>e. word_of_int (f e) :: u8) (set es)"
proof (rule inj_onI)
  fix a b assume a: "a \<in> set es" and b: "b \<in> set es"
    and eq: "(word_of_int (f a) :: u8) = word_of_int (f b)"
  from a b assms(2) have "f a = f b"
    using eq by (metis uint_code)
  with assms(1) a b show "a = b" by (meson distinct_map inj_onD)
qed


lemma wf_byte:
  assumes wf: "abi_wf h" and "set es \<subseteq> set (wc_status_members @ wc_opcode_members @ wr_opcode_members) \<or> set es \<subseteq> set (send_flag_members @ wc_flag_members)"
  shows "\<forall>e \<in> set es. 0 \<le> VIRTIO_IB h e \<and> VIRTIO_IB h e < 256 \<and> 0 \<le> IBV h e \<and> IBV h e < 256"
proof
  fix e assume "e \<in> set es"
  with assms(2) consider "e \<in> set (wc_status_members @ wc_opcode_members @ wr_opcode_members)"
    | "e \<in> set (send_flag_members @ wc_flag_members)" by blast
  then show "0 \<le> VIRTIO_IB h e \<and> VIRTIO_IB h e < 256 \<and> 0 \<le> IBV h e \<and> IBV h e < 256"
  proof cases
    case 1 then show ?thesis using wf_codes [OF wf, of e] by (simp add: code_value_def)
  next
    case 2 then show ?thesis using wf_flags [OF wf, of e] by (simp add: flag_value_def)
  qed
qed

text \<open>
  Claim C7, amended. The source translates each enumeration in one direction only: work
  request opcodes and send flags from the generic to the wire form, completion status
  from the wire to the generic form. For admissible header constants every member is
  translated to the enumerator of the same name on the other side, and different members
  have different translations, so the translation determines the member it came from.
\<close>

theorem translation_one_way_C7:
  assumes wf: "abi_wf h"
  shows "(\<forall>e \<in> set wr_opcode_members.
            to_virtio_wr_opcode h (word_of_int (IBV h e)) = word_of_int (VIRTIO_IB h e))
       \<and> inj_on (\<lambda>e. to_virtio_wr_opcode h (word_of_int (IBV h e))) (set wr_opcode_members)
       \<and> (\<forall>e \<in> set send_flag_members.
            to_virtio_send_flags h (word_of_int (IBV h e)) = word_of_int (VIRTIO_IB h e))
       \<and> inj_on (\<lambda>e. to_virtio_send_flags h (word_of_int (IBV h e))) (set send_flag_members)
       \<and> (\<forall>e \<in> set wc_status_members.
            to_ib_status h (word_of_int (VIRTIO_IB h e)) = word_of_int (IBV h e))
       \<and> inj_on (\<lambda>e. to_ib_status h (word_of_int (VIRTIO_IB h e))) (set wc_status_members)"
proof -
  have i1: "inj_on (\<lambda>e. word_of_int (VIRTIO_IB h e) :: u8) (set wr_opcode_members)"
    using inj_on_bytes [OF wf_distinct(3) [OF wf]] wf_byte [OF wf, of wr_opcode_members] by auto
  have i2: "inj_on (\<lambda>e. word_of_int (VIRTIO_IB h e) :: u8) (set send_flag_members)"
    using inj_on_bytes [OF wf_distinct(5) [OF wf]] wf_byte [OF wf, of send_flag_members] by auto
  have i3: "inj_on (\<lambda>e. word_of_int (IBV h e) :: u8) (set wc_status_members)"
    using inj_on_bytes [OF wf_distinct(2) [OF wf]] wf_byte [OF wf, of wc_status_members] by auto
  have j1: "inj_on (\<lambda>e. to_virtio_wr_opcode h (word_of_int (IBV h e))) (set wr_opcode_members)"
    using i1 by (simp add: inj_on_def wr_opcode_mapped [OF wf])
  have j2: "inj_on (\<lambda>e. to_virtio_send_flags h (word_of_int (IBV h e))) (set send_flag_members)"
    using i2 by (simp add: inj_on_def send_flags_mapped [OF wf])
  have j3: "inj_on (\<lambda>e. to_ib_status h (word_of_int (VIRTIO_IB h e))) (set wc_status_members)"
    using i3 by (simp add: inj_on_def status_mapped [OF wf])
  show ?thesis
    using j1 j2 j3 wr_opcode_mapped [OF wf] send_flags_mapped [OF wf] status_mapped [OF wf]
    by blast
qed

text \<open>Whatever values the wire enumerators have, with the generic values of the verbs
  interface no byte is translated to \<^verbatim>\<open>IBV_WR_SEND_WITH_IMM\<close> by a wire-to-generic
  function.\<close>

lemma no_wire_value_maps_back:
  assumes "IBV h = verbs_value"
  shows "to_ib_wc_opcode h w \<noteq> word_of_int (IBV h WR_SEND_WITH_IMM)"
    and "to_ib_status h w \<noteq> word_of_int (IBV h WR_SEND_WITH_IMM)"
    and "to_ib_wc_flags h w \<noteq> word_of_int (IBV h WR_SEND_WITH_IMM)"
  by (simp_all add: assms to_ib_wc_opcode_def to_ib_status_def to_ib_wc_flags_def)

text \<open>
  Claim C7 as stated fails: the source has no function that translates a wire
  work-request opcode back. None of its three wire-to-generic functions returns
  \<^verbatim>\<open>IBV_WR_SEND_WITH_IMM\<close> for the wire form of \<^verbatim>\<open>IBV_WR_SEND_WITH_IMM\<close>.
\<close>

theorem no_back_translation_C7_counterexample:
  "\<not> (to_ib_wc_opcode ref_abi (to_virtio_wr_opcode ref_abi (word_of_int (IBV ref_abi WR_SEND_WITH_IMM)))
        = word_of_int (IBV ref_abi WR_SEND_WITH_IMM)
      \<or> to_ib_status ref_abi (to_virtio_wr_opcode ref_abi (word_of_int (IBV ref_abi WR_SEND_WITH_IMM)))
        = word_of_int (IBV ref_abi WR_SEND_WITH_IMM)
      \<or> to_ib_wc_flags ref_abi (to_virtio_wr_opcode ref_abi (word_of_int (IBV ref_abi WR_SEND_WITH_IMM)))
        = word_of_int (IBV ref_abi WR_SEND_WITH_IMM))"
  by (simp add: ref_abi_def to_ib_wc_opcode_def to_ib_status_def to_ib_wc_flags_def
      to_virtio_wr_opcode_def)

theorem translation_one_way_C7_witness:
  "abi_wf ref_abi
   \<and> to_virtio_wr_opcode ref_abi 2 = 2 \<and> to_virtio_send_flags ref_abi 8 = 8
   \<and> to_ib_status ref_abi 15 = 21
   \<and> to_virtio_wr_opcode ref_abi 2 \<noteq> to_virtio_wr_opcode ref_abi 3"
  using translation_one_way_C7 [OF abi_wf_ref_abi] abi_wf_ref_abi
  by (simp add: ref_abi_def members_defs inj_on_def)

section \<open>The posting loops, one request at a time\<close>

lemma reclaim_eq: "reclaim vq = vq\<lparr>flist := flist vq @ used vq, used := []\<rparr>"
proof (induction vq rule: reclaim.induct)
  case (1 vq)
  show ?case
  proof (cases "used vq")
    case Nil
    then show ?thesis by (subst reclaim.simps) (simp add: vring_get_one_def)
  next
    case (Cons e es)
    have "reclaim vq = reclaim (vring_flist_push (vq\<lparr>used := es\<rparr>) e)"
      by (subst reclaim.simps) (simp add: vring_get_one_def Cons)
    also have "\<dots> = (vring_flist_push (vq\<lparr>used := es\<rparr>) e)
        \<lparr>flist := flist (vring_flist_push (vq\<lparr>used := es\<rparr>) e) @ used (vring_flist_push (vq\<lparr>used := es\<rparr>) e), used := []\<rparr>"
      by (rule "1.IH") (simp_all add: vring_get_one_def Cons)
    also have "\<dots> = vq\<lparr>flist := flist vq @ used vq, used := []\<rparr>"
      by (simp add: vring_flist_push_def Cons)
    finally show ?thesis .
  qed
qed

lemma pop_reclaim:
  "vring_flist_pop (reclaim vq) =
     (case flist vq @ used vq of
        [] \<Rightarrow> (None, vq\<lparr>flist := [], used := []\<rparr>)
      | e # es \<Rightarrow> (Some e, vq\<lparr>flist := es, used := []\<rparr>))"
  by (simp add: reclaim_eq vring_flist_pop_def split: list.splits)

lemma post_send_loop_Cons:
  "post_send_loop h mem qpt vq (wr # nxt) =
     (case flist vq @ used vq of
        [] \<Rightarrow> (Some ENOMEM, wr # nxt, vq\<lparr>flist := [], used := []\<rparr>)
      | e # es \<Rightarrow>
          (let vq2 = update_buf (vq\<lparr>flist := es, used := []\<rparr>) e (post_send_header h wr)
           in case post_send_addressing h qpt wr (buf (pool_table vq2 ! e)) of
                Inl err \<Rightarrow> (Some err, wr # nxt, vq2)
              | Inr req \<Rightarrow>
                  (case post_send_payload h mem (len (pool_table vq2 ! e) - sizeof_sq_req h) wr req of
                     (req', sgl_len) \<Rightarrow>
                       post_send_loop h mem qpt
                         (vring_add_one (update_buf vq2 e (\<lambda>_. req')) e
                            (sizeof_sq_req h + unat sgl_len))
                         nxt)))"
  by (simp add: pop_reclaim split: list.splits)

lemma post_recv_loop_Cons:
  "post_recv_loop h vq (wr # nxt) =
     (case flist vq @ used vq of
        [] \<Rightarrow> (Some ENOMEM, wr # nxt, vq\<lparr>flist := [], used := []\<rparr>)
      | e # es \<Rightarrow>
          post_recv_loop h
            (vring_add_one
               (update_buf (vq\<lparr>flist := es, used := []\<rparr>) e
                  (\<lambda>req. req\<lparr>rreq_num_sge := rnum_sge wr,
                             rreq_wr_id := rwr_id wr,
                             rreq_sg_list := memcpy_sgl h (rreq_sg_list req) (rsg_list wr)
                                               (sgl_len_of h (rnum_sge wr))\<rparr>))
               e (sizeof_rq_req h + unat (sgl_len_of h (rnum_sge wr))))
            nxt)"
  by (simp add: pop_reclaim split: list.splits)

declare post_send_loop.simps(2) [simp del] post_recv_loop.simps(2) [simp del]

lemma update_buf_sel [simp]:
  "flist (update_buf vq e f) = flist vq" "avail (update_buf vq e f) = avail vq"
  "used (update_buf vq e f) = used vq" "doorbell (update_buf vq e f) = doorbell vq"
  "kicks (update_buf vq e f) = kicks vq"
  "length (pool_table (update_buf vq e f)) = length (pool_table vq)"
  by (simp_all add: update_buf_def)

lemma add_one_sel [simp]:
  "flist (vring_add_one vq e l) = flist vq" "avail (vring_add_one vq e l) = avail vq @ [(e, l)]"
  "used (vring_add_one vq e l) = used vq" "doorbell (vring_add_one vq e l) = doorbell vq"
  "kicks (vring_add_one vq e l) = kicks vq"
  "pool_table (vring_add_one vq e l) = pool_table vq"
  by (simp_all add: vring_add_one_def)



lemmas example_defs = example_qp_def example_send_wr_def example_recv_wr_def example_sge_def
  zero_sq_req_def zero_rq_req_def ref_abi_def

lemmas post_send_defs = post_send_loop_Cons Let_def update_buf_def post_send_header_def
  post_send_addressing_def post_send_payload_def vring_add_one_def memcpy_sgl_def sgl_len_of_def
  virtio_rdma_post_send_def vring_notify_def slow_doorbell_def

lemma example_qp_created:
  "virtio_rdma_create_qp ref_abi qpt max_sge max_sge (Some (example_resp depth notifier))
     True True True True zero_sq_req zero_rq_req = Some (example_qp qpt depth max_sge notifier)"
  by (simp add: virtio_rdma_create_qp_def vring_init_pool_def vring_empty_def example_qp_def
      example_resp_def ref_abi_def)

lemma post_send_loop_rest:
  "post_send_loop h mem qpt vq wrs = (rc, rest, vq')
     \<Longrightarrow> (\<exists>pub. avail vq' = avail vq @ pub \<and> length pub \<le> length wrs
               \<and> rest = drop (length pub) wrs)
         \<and> (rc = None \<longrightarrow> rest = []) \<and> (rc \<noteq> None \<longrightarrow> rest \<noteq> [])"
proof (induction wrs arbitrary: vq)
  case Nil
  then show ?case by simp
next
  case (Cons wr nxt)
  show ?case
  proof (cases "flist vq @ used vq")
    case Nil
    with Cons.prems show ?thesis by (auto simp: post_send_loop_Cons)
  next
    case (Cons e es)
    note fl = this
    let ?vq2 = "update_buf (vq\<lparr>flist := es, used := []\<rparr>) e (post_send_header h wr)"
    show ?thesis
    proof (cases "post_send_addressing h qpt wr (buf (pool_table ?vq2 ! e))")
      case (Inl err)
      with Cons.prems fl show ?thesis by (auto simp: post_send_loop_Cons Let_def)
    next
      case (Inr req)
      obtain req' sgl_len where
        p: "post_send_payload h mem (len (pool_table ?vq2 ! e) - sizeof_sq_req h) wr req = (req', sgl_len)"
        by (cases "post_send_payload h mem (len (pool_table ?vq2 ! e) - sizeof_sq_req h) wr req")
      let ?vq3 = "vring_add_one (update_buf ?vq2 e (\<lambda>_. req')) e (sizeof_sq_req h + unat sgl_len)"
      from Cons.prems fl Inr p
      have "post_send_loop h mem qpt ?vq3 nxt = (rc, rest, vq')"
        by (simp add: post_send_loop_Cons Let_def)
      from Cons.IH [OF this] obtain pub where
        a: "avail vq' = avail ?vq3 @ pub" and l: "length pub \<le> length nxt"
        and r: "rest = drop (length pub) nxt"
        and n: "rc = None \<longrightarrow> rest = []" "rc \<noteq> None \<longrightarrow> rest \<noteq> []" by blast
      from a have "avail vq' = avail vq @ ((e, sizeof_sq_req h + unat sgl_len) # pub)" by simp
      moreover from l have "length ((e, sizeof_sq_req h + unat sgl_len) # pub) \<le> length (wr # nxt)"
        by simp
      moreover from r have "rest = drop (length ((e, sizeof_sq_req h + unat sgl_len) # pub)) (wr # nxt)"
        by simp
      ultimately show ?thesis using n by blast
    qed
  qed
qed

lemma post_recv_loop_rest:
  "post_recv_loop h vq wrs = (rc, rest, vq')
     \<Longrightarrow> (\<exists>pub. avail vq' = avail vq @ pub \<and> length pub \<le> length wrs
               \<and> rest = drop (length pub) wrs)
         \<and> (rc = None \<longrightarrow> rest = []) \<and> (rc \<noteq> None \<longrightarrow> rest \<noteq> [])"
proof (induction wrs arbitrary: vq)
  case Nil
  then show ?case by simp
next
  case (Cons wr nxt)
  show ?case
  proof (cases "flist vq @ used vq")
    case Nil
    with Cons.prems show ?thesis by (auto simp: post_recv_loop_Cons)
  next
    case (Cons e es)
    let ?l = "sizeof_rq_req h + unat (sgl_len_of h (rnum_sge wr))"
    let ?vq3 = "vring_add_one
               (update_buf (vq\<lparr>flist := es, used := []\<rparr>) e
                  (\<lambda>req. req\<lparr>rreq_num_sge := rnum_sge wr,
                             rreq_wr_id := rwr_id wr,
                             rreq_sg_list := memcpy_sgl h (rreq_sg_list req) (rsg_list wr)
                                               (sgl_len_of h (rnum_sge wr))\<rparr>))
               e ?l"
    from Cons.prems Cons have "post_recv_loop h ?vq3 nxt = (rc, rest, vq')"
      by (simp add: post_recv_loop_Cons)
    from Cons.IH [OF this] obtain pub where
      a: "avail vq' = avail ?vq3 @ pub" and l: "length pub \<le> length nxt"
      and r: "rest = drop (length pub) nxt"
      and n: "rc = None \<longrightarrow> rest = []" "rc \<noteq> None \<longrightarrow> rest \<noteq> []" by blast
    from a have "avail vq' = avail vq @ ((e, ?l) # pub)" by simp
    moreover from l have "length ((e, ?l) # pub) \<le> length (wr # nxt)" by simp
    moreover from r have "rest = drop (length ((e, ?l) # pub)) (wr # nxt)" by simp
    ultimately show ?thesis using n by blast
  qed
qed

lemma post_send_cases:
  assumes "post_send_loop h mem (qp_type qp) (sq qp) wr = (rc, rest, vq)"
  shows "virtio_rdma_post_send h mem qp wr bad =
           (rc, rest,
            if rc = None
            then (if doorbell vq then qp\<lparr>sq := vring_notify vq\<rparr>
                  else slow_doorbell (qp\<lparr>sq := vq\<rparr>) True)
            else qp\<lparr>sq := vq\<rparr>)"
  using assms by (cases rc) (simp_all add: virtio_rdma_post_send_def)

lemma post_recv_cases:
  assumes "post_recv_loop h (rq qp) wr = (rc, rest, vq)"
  shows "virtio_rdma_post_recv h qp wr bad =
           (rc, if rc = None then bad else rest,
            if rc = None
            then (if doorbell vq then qp\<lparr>rq := vring_notify vq\<rparr>
                  else slow_doorbell (qp\<lparr>rq := vq\<rparr>) False)
            else qp\<lparr>rq := vq\<rparr>)"
  using assms by (cases rc) (simp_all add: virtio_rdma_post_recv_def)

text \<open>
  Claim C10. \<^verbatim>\<open>virtio_rdma_post_send\<close> assigns \<^verbatim>\<open>*bad_wr\<close> on every call: \<^verbatim>\<open>NULL\<close> when
  it returns 0, and otherwise the request at which it stopped, which is the chain without
  the requests published by this call. \<^verbatim>\<open>virtio_rdma_post_recv\<close> assigns \<^verbatim>\<open>*bad_wr\<close> in
  the same way when it fails and leaves it as it was when it returns 0.
\<close>

theorem bad_wr_C10:
  "(case virtio_rdma_post_send h mem qp wr bad_wr of
      (rc, bad', qp') \<Rightarrow>
        (rc = None \<longrightarrow> bad' = [])
        \<and> (rc \<noteq> None \<longrightarrow>
             bad' \<noteq> [] \<and> bad' = drop (length (avail (sq qp')) - length (avail (sq qp))) wr))
   \<and> (case virtio_rdma_post_recv h qp rwr rbad_wr of
        (rc, bad', qp') \<Rightarrow>
          (rc = None \<longrightarrow> bad' = rbad_wr)
          \<and> (rc \<noteq> None \<longrightarrow>
               bad' \<noteq> [] \<and> bad' = drop (length (avail (rq qp')) - length (avail (rq qp))) rwr))"
proof -
  obtain rc rest vq where s: "post_send_loop h mem (qp_type qp) (sq qp) wr = (rc, rest, vq)"
    by (cases "post_send_loop h mem (qp_type qp) (sq qp) wr")
  obtain rc2 rest2 vq2 where r: "post_recv_loop h (rq qp) rwr = (rc2, rest2, vq2)"
    by (cases "post_recv_loop h (rq qp) rwr")
  from post_send_loop_rest [OF s] obtain pub where
    sa: "avail vq = avail (sq qp) @ pub" and sr: "rest = drop (length pub) wr"
    and sn: "rc = None \<longrightarrow> rest = []" "rc \<noteq> None \<longrightarrow> rest \<noteq> []" by blast
  from post_recv_loop_rest [OF r] obtain pub2 where
    ra: "avail vq2 = avail (rq qp) @ pub2" and rr: "rest2 = drop (length pub2) rwr"
    and rn: "rc2 = None \<longrightarrow> rest2 = []" "rc2 \<noteq> None \<longrightarrow> rest2 \<noteq> []" by blast
  have 1: "case virtio_rdma_post_send h mem qp wr bad_wr of
      (rc, bad', qp') \<Rightarrow>
        (rc = None \<longrightarrow> bad' = [])
        \<and> (rc \<noteq> None \<longrightarrow>
             bad' \<noteq> [] \<and> bad' = drop (length (avail (sq qp')) - length (avail (sq qp))) wr)"
    using sa sr sn by (simp add: post_send_cases [OF s])
  have 2: "case virtio_rdma_post_recv h qp rwr rbad_wr of
        (rc, bad', qp') \<Rightarrow>
          (rc = None \<longrightarrow> bad' = rbad_wr)
          \<and> (rc \<noteq> None \<longrightarrow>
               bad' \<noteq> [] \<and> bad' = drop (length (avail (rq qp')) - length (avail (rq qp))) rwr)"
    using ra rr rn by (simp add: post_recv_cases [OF r])
  from 1 2 show ?thesis ..
qed


lemma supported_Inr:
  "supported h qpt wr \<Longrightarrow> \<exists>r. post_send_addressing h qpt wr req = Inr r"
  by (auto simp: supported_def post_send_addressing_def wr_opcode_members_def)

lemma post_send_loop_exhausted:
  "list_all (supported h qpt) pre \<Longrightarrow> length (flist vq @ used vq) = length pre
     \<Longrightarrow> \<exists>vq'. post_send_loop h mem qpt vq (pre @ wr # post) = (Some ENOMEM, wr # post, vq')
           \<and> (\<exists>pub. avail vq' = avail vq @ pub \<and> map fst pub = flist vq @ used vq)
           \<and> flist vq' = [] \<and> used vq' = []"
proof (induction pre arbitrary: vq)
  case Nil
  then show ?case by (simp add: post_send_loop_Cons)
next
  case (Cons w pre)
  from Cons.prems(2) obtain e es where fl: "flist vq @ used vq = e # es"
    by (cases "flist vq @ used vq") simp_all
  let ?vq2 = "update_buf (vq\<lparr>flist := es, used := []\<rparr>) e (post_send_header h w)"
  from Cons.prems(1) have "supported h qpt w" by simp
  from supported_Inr [OF this] obtain req where
    a: "post_send_addressing h qpt w (buf (pool_table ?vq2 ! e)) = Inr req" by blast
  obtain req' sgl_len where
    p: "post_send_payload h mem (len (pool_table ?vq2 ! e) - sizeof_sq_req h) w req = (req', sgl_len)"
    by (cases "post_send_payload h mem (len (pool_table ?vq2 ! e) - sizeof_sq_req h) w req")
  let ?vq3 = "vring_add_one (update_buf ?vq2 e (\<lambda>_. req')) e (sizeof_sq_req h + unat sgl_len)"
  have step: "post_send_loop h mem qpt vq ((w # pre) @ wr # post)
                = post_send_loop h mem qpt ?vq3 (pre @ wr # post)"
    using fl a p by (simp add: post_send_loop_Cons Let_def)
  have "list_all (supported h qpt) pre" using Cons.prems(1) by simp
  moreover have "length (flist ?vq3 @ used ?vq3) = length pre"
    using Cons.prems(2) fl by simp
  ultimately obtain vq' pub where
    r: "post_send_loop h mem qpt ?vq3 (pre @ wr # post) = (Some ENOMEM, wr # post, vq')"
    and av: "avail vq' = avail ?vq3 @ pub" and ix: "map fst pub = flist ?vq3 @ used ?vq3"
    and em: "flist vq' = []" "used vq' = []"
    using Cons.IH [of ?vq3] by blast
  from av have "avail vq' = avail vq @ ((e, sizeof_sq_req h + unat sgl_len) # pub)" by simp
  moreover from ix fl
  have "map fst ((e, sizeof_sq_req h + unat sgl_len) # pub) = flist vq @ used vq" by simp
  ultimately show ?case using step r em by metis
qed

text \<open>
  Claim C3. When the requests \<open>pre\<close> at the head of a batch pass the transport and opcode
  switch and use up every slot that is free or can be reclaimed, the call stops at the
  next request \<open>wr\<close>: it returns \<^verbatim>\<open>-ENOMEM\<close>, \<^verbatim>\<open>*bad_wr\<close> points at \<open>wr\<close>, and the ring
  holds, after what it held before, one descriptor for each request of \<open>pre\<close>.
\<close>

theorem exhausted_C3:
  assumes "list_all (supported h (qp_type qp)) pre"
    and "length (flist (sq qp)) + length (used (sq qp)) = length pre"
  shows "case virtio_rdma_post_send h mem qp (pre @ wr # post) bad_wr of
           (rc, bad', qp') \<Rightarrow>
             rc = Some ENOMEM \<and> bad' = wr # post
             \<and> (\<exists>pub. avail (sq qp') = avail (sq qp) @ pub
                      \<and> map fst pub = flist (sq qp) @ used (sq qp))
             \<and> flist (sq qp') = [] \<and> used (sq qp') = []"
proof -
  from assms(2) have "length (flist (sq qp) @ used (sq qp)) = length pre" by simp
  from post_send_loop_exhausted [OF assms(1) this, of mem wr post]
  obtain vq' where
    r: "post_send_loop h mem (qp_type qp) (sq qp) (pre @ wr # post) = (Some ENOMEM, wr # post, vq')"
    and p: "\<exists>pub. avail vq' = avail (sq qp) @ pub \<and> map fst pub = flist (sq qp) @ used (sq qp)"
    and e: "flist vq' = []" "used vq' = []" by blast
  show ?thesis using p e by (simp add: post_send_cases [OF r])
qed

theorem exhausted_C3_witness:
  "list_all (supported ref_abi (qp_type (example_qp 2 1 1 4))) [example_send_wr 1 2 0 [example_sge 16 4]]
   \<and> length (flist (sq (example_qp 2 1 1 4))) = 1
   \<and> (case virtio_rdma_post_send ref_abi example_mem (example_qp 2 1 1 4)
            [example_send_wr 1 2 0 [example_sge 16 4], example_send_wr 2 2 0 [example_sge 32 4],
             example_send_wr 3 2 0 [example_sge 48 4]] []
       of (rc, bad', qp') \<Rightarrow>
         rc = Some ENOMEM
         \<and> bad' = [example_send_wr 2 2 0 [example_sge 32 4], example_send_wr 3 2 0 [example_sge 48 4]]
         \<and> map fst (avail (sq qp')) = [0])"
proof -
  have s: "list_all (supported ref_abi (qp_type (example_qp 2 1 1 4)))
             [example_send_wr 1 2 0 [example_sge 16 4]]"
    by (simp add: supported_def example_defs wr_opcode_members_def)
  have l: "length (flist (sq (example_qp 2 1 1 4))) + length (used (sq (example_qp 2 1 1 4)))
             = length [example_send_wr 1 2 0 [example_sge 16 4]]"
    by (simp add: example_defs)
  show ?thesis
    using s exhausted_C3 [OF s l, where mem = example_mem
        and wr = "example_send_wr 2 2 0 [example_sge 32 4]"
        and post = "[example_send_wr 3 2 0 [example_sge 48 4]]" and bad_wr = "[]"]
    by (auto simp: example_qp_def)
qed

lemmas post_recv_defs = post_recv_loop_Cons update_buf_def vring_add_one_def memcpy_sgl_def
  sgl_len_of_def virtio_rdma_post_recv_def vring_notify_def slow_doorbell_def

lemma small_lists: "[0..<2] = [0, 1]" "replicate 2 x = [x, x]"
  by (simp_all add: numeral_2_eq_2)

theorem bad_wr_C10_witness:
  "(case virtio_rdma_post_send ref_abi example_mem (example_qp 2 1 1 4)
          [example_send_wr 1 2 0 [example_sge 16 4]] [example_send_wr 9 2 0 []]
    of (rc, bad', qp') \<Rightarrow> rc = None \<and> bad' = [])
   \<and> (case virtio_rdma_post_send ref_abi example_mem (example_qp 2 0 1 4)
          [example_send_wr 1 2 0 [example_sge 16 4]] []
    of (rc, bad', qp') \<Rightarrow> rc = Some ENOMEM \<and> bad' = [example_send_wr 1 2 0 [example_sge 16 4]])
   \<and> (case virtio_rdma_post_recv ref_abi (example_qp 2 1 1 4)
          [example_recv_wr 1 [example_sge 16 4]] [example_recv_wr 9 []]
    of (rc, bad', qp') \<Rightarrow> rc = None \<and> bad' = [example_recv_wr 9 []])
   \<and> (case virtio_rdma_post_recv ref_abi (example_qp 2 0 1 4)
          [example_recv_wr 1 [example_sge 16 4]] [example_recv_wr 9 []]
    of (rc, bad', qp') \<Rightarrow> rc = Some ENOMEM \<and> bad' = [example_recv_wr 1 [example_sge 16 4]])"
  using
    bad_wr_C10 [where h = ref_abi and mem = example_mem and qp = "example_qp 2 1 1 4"
      and wr = "[example_send_wr 1 2 0 [example_sge 16 4]]"
      and bad_wr = "[example_send_wr 9 2 0 []]"
      and rwr = "[example_recv_wr 1 [example_sge 16 4]]" and rbad_wr = "[example_recv_wr 9 []]"]
    bad_wr_C10 [where h = ref_abi and mem = example_mem and qp = "example_qp 2 0 1 4"
      and wr = "[example_send_wr 1 2 0 [example_sge 16 4]]" and bad_wr = "[]"
      and rwr = "[example_recv_wr 1 [example_sge 16 4]]" and rbad_wr = "[example_recv_wr 9 []]"]
  by (simp add: post_send_defs post_recv_defs example_defs)



section \<open>Inline payload\<close>

lemma inline_bytes_Cons:
  "inline_bytes mem (s # sges) =
     map (\<lambda>k. mem (sge_addr s + of_nat k)) [0..<unat (sge_length s)] @ inline_bytes mem sges"
  by (simp add: inline_bytes_def)

lemma copy_inline_sges_len:
  "req_inline_len (copy_inline_sges mem cap sges p req)
     = req_inline_len req + sum_list (map sge_length sges)"
  by (induction sges arbitrary: p req) (simp_all add: add.assoc)

lemma memcpy_overrun_add:
  "memcpy_overrun cap p n + memcpy_overrun cap (p + n) m = memcpy_overrun cap p (n + m)"
  unfolding memcpy_overrun_def max_def by (cases "p + n \<le> cap"; cases "p \<le> cap"; simp)

text \<open>The copy stores behind the slot exactly the bytes of the payload that lie at or
  beyond the room of the inline region.\<close>

lemma copy_inline_sges_overrun:
  "req_overrun (copy_inline_sges mem cap sges p req)
     = req_overrun req + memcpy_overrun cap p (length (inline_bytes mem sges))"
proof (induction sges arbitrary: p req)
  case Nil
  then show ?case by (simp add: inline_bytes_def memcpy_overrun_def)
next
  case (Cons s sges)
  have "length (inline_bytes mem (s # sges)) = unat (sge_length s) + length (inline_bytes mem sges)"
    by (simp add: inline_bytes_Cons)
  then show ?case
    by (simp add: Cons.IH add.assoc memcpy_overrun_add)
qed

lemma nth_fragment:
  "j < n \<Longrightarrow> (map (\<lambda>k. mem (a + of_nat k)) [0..<n] @ rest) ! j = mem (a + of_nat j)"
  by (simp add: nth_append)

lemma nth_after_fragment:
  "n \<le> j \<Longrightarrow> (map (\<lambda>k. mem (a + of_nat k)) [0..<n] @ rest) ! j = rest ! (j - n)"
  by (simp add: nth_append)

text \<open>Within the room of the inline region the copy stores the bytes of the fragments,
  one fragment after the other; the rest of the region is left as it was.\<close>

lemma copy_inline_sges_data:
  "req_inline_data (copy_inline_sges mem cap sges p req) k =
     (if p \<le> k \<and> k < p + length (inline_bytes mem sges) \<and> k < cap
      then inline_bytes mem sges ! (k - p) else req_inline_data req k)"
proof (induction sges arbitrary: p req)
  case Nil
  then show ?case by (auto simp: inline_bytes_def)
next
  case (Cons s sges)
  let ?n = "unat (sge_length s)"
  have len: "length (inline_bytes mem (s # sges)) = ?n + length (inline_bytes mem sges)"
    by (simp add: inline_bytes_Cons)
  have unf: "req_inline_data (copy_inline_sges mem cap (s # sges) p req) k
           = (if p + ?n \<le> k \<and> k < p + ?n + length (inline_bytes mem sges) \<and> k < cap
              then inline_bytes mem sges ! (k - (p + ?n))
              else memcpy_inline (req_inline_data req) cap p mem (sge_addr s) ?n k)"
    by (simp only: copy_inline_sges.simps Cons.IH) simp
  consider (outside) "cap \<le> k" | (before) "k < cap" "k < p" | (first) "k < cap" "p \<le> k" "k < p + ?n"
    | (later) "k < cap" "p + ?n \<le> k" "k < p + ?n + length (inline_bytes mem sges)"
    | (after) "k < cap" "p + ?n + length (inline_bytes mem sges) \<le> k" by linarith
  then show ?case
  proof cases
    case outside
    then show ?thesis unfolding unf len by (simp add: memcpy_inline_def)
  next
    case before
    then show ?thesis unfolding unf len by (simp add: memcpy_inline_def)
  next
    case first
    then have j: "k - p < ?n" by arith
    have "inline_bytes mem (s # sges) ! (k - p) = mem (sge_addr s + of_nat (k - p))"
      unfolding inline_bytes_Cons by (rule nth_fragment [OF j])
    moreover have "memcpy_inline (req_inline_data req) cap p mem (sge_addr s) ?n k
                     = mem (sge_addr s + of_nat (k - p))"
      using first unfolding memcpy_inline_def by simp
    moreover have "\<not> (p + ?n \<le> k \<and> k < p + ?n + length (inline_bytes mem sges) \<and> k < cap)"
      using first by arith
    moreover have "p \<le> k \<and> k < p + (?n + length (inline_bytes mem sges)) \<and> k < cap"
      using first by arith
    ultimately show ?thesis unfolding unf len by (simp only: if_True if_False simp_thms)
  next
    case later
    then have j: "?n \<le> k - p" by arith
    have "inline_bytes mem (s # sges) ! (k - p) = inline_bytes mem sges ! (k - p - ?n)"
      unfolding inline_bytes_Cons by (rule nth_after_fragment [OF j])
    moreover have "k - p - ?n = k - (p + ?n)" by arith
    moreover have "p \<le> k \<and> k < p + (?n + length (inline_bytes mem sges)) \<and> k < cap"
      using later by arith
    moreover have "p + ?n \<le> k \<and> k < p + ?n + length (inline_bytes mem sges) \<and> k < cap"
      using later by arith
    ultimately show ?thesis unfolding unf len by (simp only: if_True if_False simp_thms)
  next
    case after
    then have "\<not> (p + ?n \<le> k \<and> k < p + ?n + length (inline_bytes mem sges) \<and> k < cap)"
      and "\<not> (p \<le> k \<and> k < p + (?n + length (inline_bytes mem sges)) \<and> k < cap)"
      and "\<not> (p \<le> k \<and> k < p + ?n \<and> k < cap)" by arith+
    then show ?thesis unfolding unf len by (simp only: if_False memcpy_inline_def simp_thms)
  qed
qed

text \<open>A payload that fits the room of the inline region is copied as a whole, in list
  order, and nothing is stored behind the slot.\<close>

lemma copy_inline_data_fits:
  assumes "length (inline_bytes mem (take (nat (num_sge wr)) (sg_list wr))) \<le> cap"
  shows "map (req_inline_data (copy_inline_data_to_wqe mem cap (req\<lparr>req_inline_len := 0\<rparr>) wr))
             [0..<length (inline_bytes mem (take (nat (num_sge wr)) (sg_list wr)))]
           = inline_bytes mem (take (nat (num_sge wr)) (sg_list wr))"
    and "req_inline_len (copy_inline_data_to_wqe mem cap (req\<lparr>req_inline_len := 0\<rparr>) wr)
           = sum_list (map sge_length (take (nat (num_sge wr)) (sg_list wr)))"
    and "req_overrun (copy_inline_data_to_wqe mem cap (req\<lparr>req_inline_len := 0\<rparr>) wr) = 0"
proof -
  show "map (req_inline_data (copy_inline_data_to_wqe mem cap (req\<lparr>req_inline_len := 0\<rparr>) wr))
             [0..<length (inline_bytes mem (take (nat (num_sge wr)) (sg_list wr)))]
           = inline_bytes mem (take (nat (num_sge wr)) (sg_list wr))"
    using assms
    by (intro nth_equalityI) (simp_all add: copy_inline_data_to_wqe_def copy_inline_sges_data)
  show "req_inline_len (copy_inline_data_to_wqe mem cap (req\<lparr>req_inline_len := 0\<rparr>) wr)
           = sum_list (map sge_length (take (nat (num_sge wr)) (sg_list wr)))"
    by (simp add: copy_inline_data_to_wqe_def copy_inline_sges_len)
  show "req_overrun (copy_inline_data_to_wqe mem cap (req\<lparr>req_inline_len := 0\<rparr>) wr) = 0"
    using assms
    by (simp add: copy_inline_data_to_wqe_def copy_inline_sges_overrun memcpy_overrun_def)
qed

text \<open>A payload longer than the room of the inline region is stored behind the slot for
  all that exceeds the room.\<close>

lemma copy_inline_data_overrun:
  "req_overrun (copy_inline_data_to_wqe mem cap (req\<lparr>req_inline_len := 0\<rparr>) wr)
     = length (inline_bytes mem (take (nat (num_sge wr)) (sg_list wr))) - cap"
  by (simp add: copy_inline_data_to_wqe_def copy_inline_sges_overrun memcpy_overrun_def)

lemmas inline_defs = copy_inline_data_to_wqe_def memcpy_inline_def memcpy_overrun_def
  example_mem_def

text \<open>
  Claim C8 fails when the inline payload is longer than the room that a slot has behind
  the record header: \<^verbatim>\<open>copy_inline_data_to_wqe\<close> copies every fragment without a bound.
  On a send queue whose slots have 80 bytes (a header of 64 bytes and one descriptor of
  16 bytes), a request with the inline flag and two fragments of 500 bytes is accepted
  and published with the length of the header; its inline length is 1000, the slot takes
  the first 16 bytes of the payload and the other 984 bytes are stored behind the slot.
\<close>

theorem inline_overruns_slot_C8:
  "(case virtio_rdma_post_send ref_abi example_mem (example_qp 2 2 1 4)
          [example_send_wr 1 2 8 [example_sge 0 500, example_sge 500 500]] []
    of (rc, bad', qp') \<Rightarrow>
      rc = None \<and> avail (sq qp') = [(0, 64)]
      \<and> len (pool_table (sq qp') ! 0) = 80 \<and> sizeof_sq_req ref_abi = 64
      \<and> req_inline_len (buf (pool_table (sq qp') ! 0)) = 1000
      \<and> req_inline_data (buf (pool_table (sq qp') ! 0)) 15 = 15
      \<and> req_inline_data (buf (pool_table (sq qp') ! 0)) 16 = 0
      \<and> req_overrun (buf (pool_table (sq qp') ! 0)) = 984)"
  by (simp add: post_send_defs example_defs inline_defs small_lists)

section \<open>Completion queue creation and polling\<close>

lemma create_cq_fill_eq:
  "n - i \<le> length (flist vq) \<Longrightarrow>
     create_cq_fill h i n vq =
       Some (vq\<lparr>flist := drop (n - i) (flist vq),
                 avail := avail vq @ map (\<lambda>e. (e, sizeof_cq_req h)) (take (n - i) (flist vq))\<rparr>)"
proof (induction h i n vq rule: create_cq_fill.induct)
  case (1 h i n vq)
  show ?case
  proof (cases "i < n")
    case False
    then show ?thesis by (subst create_cq_fill.simps) simp
  next
    case True
    then have s: "n - i = Suc (n - (i + 1))" by arith
    with "1.prems" obtain e es where fl: "flist vq = e # es"
      by (cases "flist vq") simp_all
    let ?vq' = "vring_add_one (vq\<lparr>flist := es\<rparr>) e (sizeof_cq_req h)"
    have p: "vring_flist_pop vq = (Some e, vq\<lparr>flist := es\<rparr>)"
      by (simp add: vring_flist_pop_def fl)
    have l: "n - (i + 1) \<le> length (flist ?vq')"
      using "1.prems" fl s by simp
    have "create_cq_fill h i n vq = create_cq_fill h (i + 1) n ?vq'"
      using True by (subst create_cq_fill.simps) (simp add: p)
    also have "\<dots> = Some (?vq'\<lparr>flist := drop (n - (i + 1)) (flist ?vq'),
          avail := avail ?vq' @ map (\<lambda>e. (e, sizeof_cq_req h)) (take (n - (i + 1)) (flist ?vq'))\<rparr>)"
      using True p l by (intro "1.IH") simp_all
    also have "\<dots> = Some (vq\<lparr>flist := drop (n - i) (flist vq),
                 avail := avail vq @ map (\<lambda>e. (e, sizeof_cq_req h)) (take (n - i) (flist vq))\<rparr>)"
      by (simp add: vring_add_one_def fl s)
    finally show ?thesis .
  qed
qed

lemma create_cq_eq:
  "virtio_rdma_create_cq h (Some n) True True mem =
     Some \<lparr>num_cqe = n,
           vring = \<lparr>pool_table = replicate n \<lparr>buf = mem, len = sizeof_cq_req h\<rparr>,
                    flist = [], avail = map (\<lambda>e. (e, sizeof_cq_req h)) [0..<n], used = [],
                    doorbell = False, kicks = 0\<rparr>\<rparr>"
  by (simp add: virtio_rdma_create_cq_def vring_init_pool_def vring_empty_def create_cq_fill_eq)

lemma poll_cq_idle:
  "used (vring cq) = [] \<Longrightarrow> virtio_rdma_poll_cq h cq num_entries wc = (0, cq, wc)"
  by (simp add: virtio_rdma_poll_cq_def vring_get_one_def) (subst poll_cq_loop.simps, simp add: vring_get_one_def)

text \<open>
  Claim C9, amended. A completion queue created with depth \<open>n\<close> has an empty free list:
  all \<open>n\<close> slots have been taken from it and published in the ring for the backend to
  fill, so the pool still accounts for \<open>n\<close> entries. A poll for one entry before the
  backend has returned anything fills no entry and changes nothing.
\<close>

theorem create_cq_C9:
  "\<exists>cq. virtio_rdma_create_cq h (Some n) True True mem = Some cq
        \<and> num_cqe cq = n
        \<and> flist (vring cq) = []
        \<and> avail (vring cq) = map (\<lambda>e. (e, sizeof_cq_req h)) [0..<n]
        \<and> used (vring cq) = []
        \<and> pool_count (vring cq) = n
        \<and> virtio_rdma_poll_cq h cq 1 wc = (0, cq, wc)"
  by (simp add: create_cq_eq poll_cq_idle pool_count_def)

text \<open>
  Claim C9 as stated fails: after the creation of a completion queue of depth 16 the free
  list does not hold 16 entries.
\<close>

theorem create_cq_C9_counterexample:
  "\<not> (\<exists>cq. virtio_rdma_create_cq ref_abi (Some 16) True True zero_cq_req = Some cq
           \<and> length (flist (vring cq)) = 16)"
  by (simp add: create_cq_eq)


theorem create_cq_C9_witness:
  "\<exists>cq. virtio_rdma_create_cq ref_abi (Some 16) True True zero_cq_req = Some cq
        \<and> flist (vring cq) = [] \<and> length (avail (vring cq)) = 16
        \<and> pool_count (vring cq) = 16
        \<and> virtio_rdma_poll_cq ref_abi cq 1 [] = (0, cq, [])"
proof -
  from create_cq_C9 [where h = ref_abi and n = 16 and mem = zero_cq_req and wc = "[]"]
  obtain cq where "virtio_rdma_create_cq ref_abi (Some 16) True True zero_cq_req = Some cq"
    and "flist (vring cq) = []"
    and "avail (vring cq) = map (\<lambda>e. (e, sizeof_cq_req ref_abi)) [0..<16]"
    and "pool_count (vring cq) = 16"
    and "virtio_rdma_poll_cq ref_abi cq 1 [] = (0, cq, [])" by blast
  then show ?thesis by auto
qed

section \<open>Pool accounting\<close>

text \<open>The posting loops and the polling loop keep the number of entries a pool
  accounts for, except that the send loop loses one entry when it ends with
  \<^verbatim>\<open>-EOPNOTSUPP\<close> or \<^verbatim>\<open>-EINVAL\<close>.\<close>

lemma pool_count_add_one:
  "pool_count (vring_add_one vq e l) = Suc (pool_count vq)"
  by (simp add: pool_count_def)

lemma pool_count_update_buf [simp]: "pool_count (update_buf vq e f) = pool_count vq"
  by (simp add: pool_count_def)

lemma pool_count_popped:
  "flist vq @ used vq = e # es \<Longrightarrow> Suc (pool_count (vq\<lparr>flist := es, used := []\<rparr>)) = pool_count vq"
proof -
  assume "flist vq @ used vq = e # es"
  then have "length (flist vq) + length (used vq) = Suc (length es)"
    by (metis length_append length_Cons)
  then show ?thesis by (simp add: pool_count_def)
qed

lemma post_send_loop_count:
  "post_send_loop h mem qpt vq wrs = (rc, rest, vq')
     \<Longrightarrow> pool_count vq' + (if rc = Some EOPNOTSUPP \<or> rc = Some EINVAL then 1 else 0)
           = pool_count vq"
proof (induction wrs arbitrary: vq)
  case Nil
  then show ?case by auto
next
  case (Cons wr nxt)
  show ?case
  proof (cases "flist vq @ used vq")
    case Nil
    with Cons.prems show ?thesis by (auto simp: post_send_loop_Cons pool_count_def)
  next
    case (Cons e es)
    note fl = this
    let ?vq2 = "update_buf (vq\<lparr>flist := es, used := []\<rparr>) e (post_send_header h wr)"
    show ?thesis
    proof (cases "post_send_addressing h qpt wr (buf (pool_table ?vq2 ! e))")
      case (Inl err)
      then have "err = EOPNOTSUPP \<or> err = EINVAL"
        by (auto simp: post_send_addressing_def split: if_splits)
      with Cons.prems fl Inl pool_count_popped [OF fl] show ?thesis
        by (auto simp: post_send_loop_Cons Let_def)
    next
      case (Inr req)
      obtain req' sgl_len where
        p: "post_send_payload h mem (len (pool_table ?vq2 ! e) - sizeof_sq_req h) wr req = (req', sgl_len)"
        by (cases "post_send_payload h mem (len (pool_table ?vq2 ! e) - sizeof_sq_req h) wr req")
      let ?vq3 = "vring_add_one (update_buf ?vq2 e (\<lambda>_. req')) e (sizeof_sq_req h + unat sgl_len)"
      from Cons.prems fl Inr p
      have "post_send_loop h mem qpt ?vq3 nxt = (rc, rest, vq')"
        by (simp add: post_send_loop_Cons Let_def)
      from Cons.IH [OF this] pool_count_popped [OF fl] show ?thesis
        by (simp add: pool_count_add_one)
    qed
  qed
qed

lemma post_recv_loop_count:
  "post_recv_loop h vq wrs = (rc, rest, vq') \<Longrightarrow> pool_count vq' = pool_count vq"
proof (induction wrs arbitrary: vq)
  case Nil
  then show ?case by auto
next
  case (Cons wr nxt)
  show ?case
  proof (cases "flist vq @ used vq")
    case Nil
    with Cons.prems show ?thesis by (auto simp: post_recv_loop_Cons pool_count_def)
  next
    case (Cons e es)
    let ?vq3 = "vring_add_one
               (update_buf (vq\<lparr>flist := es, used := []\<rparr>) e
                  (\<lambda>req. req\<lparr>rreq_num_sge := rnum_sge wr,
                             rreq_wr_id := rwr_id wr,
                             rreq_sg_list := memcpy_sgl h (rreq_sg_list req) (rsg_list wr)
                                               (sgl_len_of h (rnum_sge wr))\<rparr>))
               e (sizeof_rq_req h + unat (sgl_len_of h (rnum_sge wr)))"
    from Cons.prems Cons have "post_recv_loop h ?vq3 nxt = (rc, rest, vq')"
      by (simp add: post_recv_loop_Cons)
    from Cons.IH [OF this] pool_count_popped [OF Cons] show ?thesis
      by (simp add: pool_count_add_one)
  qed
qed

lemma poll_cq_loop_count:
  "poll_cq_loop h num_entries i vq wc = (k, vq', wc') \<Longrightarrow> pool_count vq' = pool_count vq"
proof (induction h num_entries i vq wc rule: poll_cq_loop.induct)
  case (1 h num_entries i vq wc)
  show ?case
  proof (cases "i < num_entries")
    case False
    with "1.prems" show ?thesis by (subst (asm) poll_cq_loop.simps) simp
  next
    case True
    show ?thesis
    proof (cases "used vq")
      case Nil
      with True "1.prems" show ?thesis
        by (subst (asm) poll_cq_loop.simps) (auto simp: vring_get_one_def)
    next
      case (Cons e es)
      let ?vq1 = "vq\<lparr>used := es\<rparr>"
      have g: "vring_get_one vq = (Some e, ?vq1)" by (simp add: vring_get_one_def Cons)
      let ?vq2 = "vring_add_one ?vq1 e (len (pool_table ?vq1 ! e))"
      let ?req = "buf (pool_table ?vq1 ! e)"
      let ?w = "wc[nat i := (wc ! nat i)
                             \<lparr>wc_wr_id := cqe_wr_id ?req,
                              wc_status := to_ib_status h (cqe_status ?req),
                              wc_opcode := to_ib_wc_opcode h (cqe_opcode ?req),
                              wc_vendor_err := cqe_vendor_err ?req,
                              wc_byte_len := cqe_byte_len ?req,
                              wc_imm_data := cqe_imm_data ?req,
                              wc_src_qp := cqe_src_qp ?req,
                              wc_wc_flags := to_ib_wc_flags h (cqe_wc_flags ?req),
                              wc_pkey_index := 0\<rparr>]"
      from "1.prems" True g have
        r: "poll_cq_loop h num_entries (i + 1) ?vq2 ?w = (k, vq', wc')"
        by (subst (asm) poll_cq_loop.simps) (simp add: Let_def)
      have "pool_count vq' = pool_count ?vq2"
        by (rule "1.IH" [OF True g [symmetric] refl refl refl r])
      then show ?thesis by (simp add: pool_count_def Cons)
    qed
  qed
qed

text \<open>
  Claim C1 fails on the error exits of \<^verbatim>\<open>virtio_rdma_post_send\<close> that follow the pop: the
  slot taken from the free list is neither published nor pushed back. On a reliable
  connection a request with opcode 5 (an atomic operation) ends the call with
  \<^verbatim>\<open>-EOPNOTSUPP\<close>, on a queue pair of type 3 (unreliable connection) any request ends it
  with \<^verbatim>\<open>-EINVAL\<close>; each time a pool of two entries accounts for one entry afterwards.
\<close>

theorem post_send_loses_entry_C1:
  "(case virtio_rdma_post_send ref_abi example_mem (example_qp 2 2 1 4)
          [example_send_wr 1 5 0 [example_sge 16 4]] []
    of (rc, bad', qp') \<Rightarrow>
      rc = Some EOPNOTSUPP \<and> pool_count (sq (example_qp 2 2 1 4)) = 2
      \<and> flist (sq qp') = [1] \<and> avail (sq qp') = [] \<and> used (sq qp') = []
      \<and> pool_count (sq qp') = 1)
   \<and> (case virtio_rdma_post_send ref_abi example_mem (example_qp 3 2 1 4)
          [example_send_wr 1 2 0 [example_sge 16 4]] []
    of (rc, bad', qp') \<Rightarrow>
      rc = Some EINVAL \<and> pool_count (sq (example_qp 3 2 1 4)) = 2
      \<and> flist (sq qp') = [1] \<and> avail (sq qp') = [] \<and> used (sq qp') = []
      \<and> pool_count (sq qp') = 1)"
  by (simp add: post_send_defs example_defs pool_count_def small_lists)

section \<open>Addressing and record length\<close>

lemma post_send_addressing_ud:
  "post_send_addressing h (IBV h QPT_UD) wr req =
     Inr (req\<lparr>req_ud_remote_qpn := ud_remote_qpn wr, req_ud_remote_qkey := ud_remote_qkey wr,
              req_ud_ah := ud_ah_num wr\<rparr>)"
  by (simp add: post_send_addressing_def)

lemma post_send_addressing_rc:
  assumes "IBV h QPT_RC \<noteq> IBV h QPT_UD"
  shows "post_send_addressing h (IBV h QPT_RC) wr req =
     (if opcode wr \<in> {IBV h WR_RDMA_READ, IBV h WR_RDMA_WRITE, IBV h WR_RDMA_WRITE_WITH_IMM}
      then Inr (req\<lparr>req_rdma_remote_addr := rdma_remote_addr wr, req_rdma_rkey := rdma_rkey wr\<rparr>)
      else if opcode wr \<in> {IBV h WR_SEND, IBV h WR_SEND_WITH_IMM} then Inr req
      else Inl EOPNOTSUPP)"
  using assms by (simp add: post_send_addressing_def)

lemma post_send_addressing_other:
  "qpt \<noteq> IBV h QPT_UD \<Longrightarrow> qpt \<noteq> IBV h QPT_RC \<Longrightarrow> post_send_addressing h qpt wr req = Inl EINVAL"
  by (simp add: post_send_addressing_def)

text \<open>
  Claim C4 fails for the opcodes of an unreliable datagram queue pair: the source tests no
  opcode there. An RDMA write (opcode 0) posted on such a queue pair is accepted and
  published with the datagram addressing fields.
\<close>

theorem ud_accepts_rdma_opcode_C4:
  "(case virtio_rdma_post_send ref_abi example_mem (example_qp 4 1 1 4)
          [example_send_wr 1 0 0 [example_sge 16 4]] []
    of (rc, bad', qp') \<Rightarrow>
      rc = None \<and> bad' = [] \<and> avail (sq qp') = [(0, 80)]
      \<and> req_opcode (buf (pool_table (sq qp') ! 0)) = word_of_int (VIRTIO_IB ref_abi WR_RDMA_WRITE)
      \<and> req_ud_remote_qpn (buf (pool_table (sq qp') ! 0)) = 8
      \<and> req_ud_remote_qkey (buf (pool_table (sq qp') ! 0)) = 9
      \<and> req_ud_ah (buf (pool_table (sq qp') ! 0)) = 7)"
  by (simp add: post_send_defs example_defs to_virtio_wr_opcode_def to_virtio_send_flags_def)

text \<open>
  Claim C5 fails when a request has more fragments than were negotiated: the source does
  not compare \<^verbatim>\<open>num_sge\<close> with the negotiated maximum. With one descriptor negotiated per
  request, a request with two fragments is published with a length of header plus two
  descriptors, above the entry size of header plus one, on the send and the receive path.
\<close>

theorem record_exceeds_entry_C5:
  "(case virtio_rdma_post_send ref_abi example_mem (example_qp 2 1 1 4)
          [example_send_wr 1 2 0 [example_sge 16 4, example_sge 32 4]] []
    of (rc, bad', qp') \<Rightarrow>
      rc = None \<and> avail (sq qp') = [(0, 96)] \<and> len (pool_table (sq qp') ! 0) = 80)
   \<and> (case virtio_rdma_post_recv ref_abi (example_qp 2 1 1 4)
          [example_recv_wr 1 [example_sge 16 4, example_sge 32 4]] []
    of (rc, bad', qp') \<Rightarrow>
      rc = None \<and> avail (rq qp') = [(0, 48)] \<and> len (pool_table (rq qp') ! 0) = 32)"
  by (simp add: post_send_defs post_recv_defs example_defs)

end
